theory Spec2Isabelle
  imports Main "HOL-Library.Word"
begin

text \<open>
  A shallow embedding of pico2-swd-riscv, an SWD debugger for the two RISC-V harts of the
  RP2350. The first part follows swd.c: error and ACK decoding, the process-wide
  tracker of PIO slots, and the lifecycle of a target session, with sessions kept in an
  explicit heap because the tracker stores pointers to them, and with the hardware
  actions and slot releases of a destroy kept in order. The second part is the
  debug-module driver (halt, register access, tracing) as the specification describes
  it, over a target whose answers are an input. The properties follow the definitions.
\<close>

section \<open>Data model (types.h, swd.h, internal.h)\<close>

type_synonym u8 = "8 word"
type_synonym u32 = "32 word"
type_synonym u64 = "64 word"

text \<open>\<^verbatim>\<open>uint\<close> is the SDK's \<^verbatim>\<open>unsigned int\<close>, 32 bits wide on the host MCU.\<close>

type_synonym uint = "32 word"

text \<open>
  \<^verbatim>\<open>swd_error_t\<close> of types.h, in the order of the enumeration; \<open>error_code\<close> is the
  integer value C gives each enumerator.
\<close>

datatype swd_error_t =
    SWD_OK
  | SWD_ERROR_TIMEOUT
  | SWD_ERROR_FAULT
  | SWD_ERROR_PROTOCOL
  | SWD_ERROR_PARITY
  | SWD_ERROR_WAIT
  | SWD_ERROR_NOT_CONNECTED
  | SWD_ERROR_NOT_HALTED
  | SWD_ERROR_ALREADY_HALTED
  | SWD_ERROR_INVALID_STATE
  | SWD_ERROR_NO_MEMORY
  | SWD_ERROR_INVALID_CONFIG
  | SWD_ERROR_RESOURCE_BUSY
  | SWD_ERROR_INVALID_PARAM
  | SWD_ERROR_NOT_INITIALIZED
  | SWD_ERROR_ABSTRACT_CMD
  | SWD_ERROR_BUS
  | SWD_ERROR_ALIGNMENT
  | SWD_ERROR_VERIFY

fun error_code :: "swd_error_t \<Rightarrow> nat" where
  "error_code SWD_OK = 0"
| "error_code SWD_ERROR_TIMEOUT = 1"
| "error_code SWD_ERROR_FAULT = 2"
| "error_code SWD_ERROR_PROTOCOL = 3"
| "error_code SWD_ERROR_PARITY = 4"
| "error_code SWD_ERROR_WAIT = 5"
| "error_code SWD_ERROR_NOT_CONNECTED = 6"
| "error_code SWD_ERROR_NOT_HALTED = 7"
| "error_code SWD_ERROR_ALREADY_HALTED = 8"
| "error_code SWD_ERROR_INVALID_STATE = 9"
| "error_code SWD_ERROR_NO_MEMORY = 10"
| "error_code SWD_ERROR_INVALID_CONFIG = 11"
| "error_code SWD_ERROR_RESOURCE_BUSY = 12"
| "error_code SWD_ERROR_INVALID_PARAM = 13"
| "error_code SWD_ERROR_NOT_INITIALIZED = 14"
| "error_code SWD_ERROR_ABSTRACT_CMD = 15"
| "error_code SWD_ERROR_BUS = 16"
| "error_code SWD_ERROR_ALIGNMENT = 17"
| "error_code SWD_ERROR_VERIFY = 18"

text \<open>\<^verbatim>\<open>swd_result_t\<close>: the \<^verbatim>\<open>{error, value}\<close> pair of every 32-bit read.\<close>

record swd_result_t =
  error :: swd_error_t
  rvalue :: u32

text \<open>The ACK values of types.h.\<close>

definition SWD_ACK_OK :: u8 where "SWD_ACK_OK = 0x1"
definition SWD_ACK_WAIT :: u8 where "SWD_ACK_WAIT = 0x2"
definition SWD_ACK_FAULT :: u8 where "SWD_ACK_FAULT = 0x4"
definition SWD_ACK_ERROR :: u8 where "SWD_ACK_ERROR = 0x7"

text \<open>
  \<^verbatim>\<open>PIO\<close> is the SDK's pointer to a PIO block (hardware/pio.h belongs to the Pico SDK, not
  to this repository). The code only compares such pointers with \<^verbatim>\<open>pio0\<close>, \<^verbatim>\<open>pio1\<close> and
  \<^verbatim>\<open>SWD_PIO_AUTO\<close>, so a \<^verbatim>\<open>PIO\<close> is its 32-bit address; \<open>pio0\<close> and \<open>pio1\<close> are the base
  addresses of the two blocks.
\<close>

type_synonym PIO = "32 word"

definition pio0 :: PIO where "pio0 = 0x50200000"
definition pio1 :: PIO where "pio1 = 0x50300000"

definition SWD_PIO_AUTO :: "32 word" where "SWD_PIO_AUTO = 0xFF"
definition SWD_SM_AUTO :: uint where "SWD_SM_AUTO = 0xFF"

text \<open>\<^verbatim>\<open>swd_config_t\<close> of swd.h (fields prefixed, as \<^verbatim>\<open>pio_state_t\<close> reuses their names).\<close>

record swd_config_t =
  cfg_pio :: PIO
  cfg_sm :: uint
  cfg_pin_swclk :: uint
  cfg_pin_swdio :: uint
  cfg_freq_khz :: uint
  enable_caching :: bool
  cfg_retry_count :: uint

text \<open>The structures of internal.h.\<close>

record dap_state_t =
  current_apsel :: u8
  current_bank :: u8
  ctrlsel :: bool
  select_cache :: u32
  powered :: bool
  retry_count :: uint

record hart_state_t =
  halt_state_known :: bool
  halted :: bool
  cache_valid :: bool
  cached_pc :: u32
  cached_gprs :: "u32 list"
  cache_timestamp :: u64

definition RP2350_NUM_HARTS :: nat where "RP2350_NUM_HARTS = 2"

record rp2350_state_t =
  initialized :: bool
  sba_initialized :: bool
  harts :: "hart_state_t list"
  cache_enabled :: bool

record pio_state_t =
  pio :: PIO
  sm :: uint
  pio_offset :: uint
  pin_swclk :: uint
  pin_swdio :: uint
  freq_khz :: uint
  pio_initialized :: bool

record swd_target =
  pio_st :: pio_state_t
  connected :: bool
  idcode :: u32
  dap :: dap_state_t
  rp2350 :: rp2350_state_t
  last_error :: swd_error_t
  last_ack :: u8
  error_detail :: string
  resource_registered :: bool

text \<open>
  A \<^verbatim>\<open>swd_target_t *\<close> is an address; \<open>NULL\<close> is address 0. The tracker stores such
  pointers, so sessions live in an explicit heap: a map from addresses to the target
  structures that are allocated and not yet freed.
\<close>

type_synonym target_ptr = nat

definition NULL :: target_ptr where "NULL = 0"

record resource_tracker_t =
  pio0_sm_owners :: "target_ptr list"
  pio1_sm_owners :: "target_ptr list"
  active_count :: uint

text \<open>
  Modelled from the spec: what a disconnect does outside the session structure, on the
  line engine of the session's slot and on its two pins (spec 4.2): the write that clears
  the two power-up requests, the line reset, and a pin left as an input.
\<close>

datatype hw_action =
    PowerDownRequest PIO uint
  | LineReset PIO uint
  | PinInput uint

text \<open>
  What the lifecycle calls do outside the session structures: an action on the hardware,
  or a call of \<^verbatim>\<open>release_pio_sm\<close> for a slot. The program state keeps these effects in
  the order in which they happen, next to the tracker and the heap, so that the order of
  the steps of a call can be stated.
\<close>

datatype effect =
    Hardware hw_action
  | SlotRelease PIO uint

record world =
  g_resources :: resource_tracker_t
  heap :: "target_ptr \<rightharpoonup> swd_target"
  effects :: "effect list"

text \<open>
  The initialiser of \<^verbatim>\<open>g_resources\<close>, no session allocated, and no effect yet.
\<close>

definition g_resources_init :: resource_tracker_t where
  "g_resources_init =
     \<lparr>pio0_sm_owners = [NULL, NULL, NULL, NULL],
      pio1_sm_owners = [NULL, NULL, NULL, NULL],
      active_count = 0\<rparr>"

definition world_init :: world where
  "world_init = \<lparr>g_resources = g_resources_init, heap = Map.empty, effects = []\<rparr>"

text \<open>
  Reading or writing through a handle that is neither \<open>NULL\<close> nor allocated is undefined
  behaviour in C; the model returns this fault instead of a result.
\<close>

datatype fault = DanglingHandle

text \<open>The block \<^verbatim>\<open>calloc(1, sizeof(swd_target_t))\<close> returns: every field zero.\<close>

definition zero_hart :: hart_state_t where
  "zero_hart =
     \<lparr>halt_state_known = False, halted = False, cache_valid = False, cached_pc = 0,
      cached_gprs = replicate 32 0, cache_timestamp = 0\<rparr>"

definition zero_target :: swd_target where
  "zero_target =
     \<lparr>pio_st = \<lparr>pio = 0, sm = 0, pio_offset = 0, pin_swclk = 0, pin_swdio = 0, freq_khz = 0,
                pio_initialized = False\<rparr>,
      connected = False,
      idcode = 0,
      dap = \<lparr>current_apsel = 0, current_bank = 0, ctrlsel = False, select_cache = 0,
              powered = False, retry_count = 0\<rparr>,
      rp2350 = \<lparr>initialized = False, sba_initialized = False,
                 harts = replicate RP2350_NUM_HARTS zero_hart, cache_enabled = False\<rparr>,
      last_error = SWD_OK,
      last_ack = 0,
      error_detail = [],
      resource_registered = False\<rparr>"

definition free_target :: "target_ptr \<Rightarrow> world \<Rightarrow> world" where
  "free_target p w = w\<lparr>heap := (heap w)(p := None)\<rparr>"

section \<open>Error management (swd.c)\<close>

text \<open>
  \<^verbatim>\<open>swd_set_error\<close>. The pointer argument is \<open>None\<close> for \<open>NULL\<close>, \<open>Some t\<close> for a live
  structure; \<open>detail\<close> is the text \<^verbatim>\<open>vsnprintf\<close> formats, cut to the 128-byte buffer.
  The \<^verbatim>\<open>SWD_WARN\<close> and \<^verbatim>\<open>SWD_INFO\<close> lines go to stdio, which the model leaves out.
\<close>

definition swd_set_error :: "swd_target option \<Rightarrow> swd_error_t \<Rightarrow> string option \<Rightarrow> swd_target option" where
  "swd_set_error target err detail =
     (case target of
        None \<Rightarrow> None
      | Some t \<Rightarrow>
          Some (t\<lparr>last_error := err,
                  error_detail := (case detail of Some d \<Rightarrow> take 127 d | None \<Rightarrow> [])\<rparr>))"

text \<open>\<^verbatim>\<open>%d\<close> of printf.\<close>

fun dec_digits :: "nat \<Rightarrow> string" where
  "dec_digits n =
     (if n < 10 then [char_of (48 + n)] else dec_digits (n div 10) @ [char_of (48 + n mod 10)])"

definition show_int :: "int \<Rightarrow> string" where
  "show_int i = (if i < 0 then CHR ''-'' # dec_digits (nat (- i)) else dec_digits (nat i))"

section \<open>ACK decoding (swd.c)\<close>

text \<open>The \<^verbatim>\<open>switch\<close> of \<^verbatim>\<open>swd_ack_to_error\<close>, case by case, with its default.\<close>

definition swd_ack_to_error :: "u8 \<Rightarrow> swd_error_t" where
  "swd_ack_to_error ack =
     (if ack = SWD_ACK_OK then SWD_OK
      else if ack = SWD_ACK_WAIT then SWD_ERROR_WAIT
      else if ack = SWD_ACK_FAULT then SWD_ERROR_FAULT
      else if ack = SWD_ACK_ERROR then SWD_ERROR_PROTOCOL
      else SWD_ERROR_PROTOCOL)"

section \<open>Resource management (swd.c)\<close>

text \<open>
  \<^verbatim>\<open>allocate_pio_sm\<close>: each of the two scans over the indices 0 to 3 returns at the first
  index whose owner is \<open>NULL\<close>. \<open>Inr (pio, sm)\<close> is the return of \<^verbatim>\<open>SWD_OK\<close> with both out-parameters written;
  \<open>Inl e\<close> is the error return, which leaves them unwritten. The function contains no
  assignment to \<^verbatim>\<open>g_resources\<close>: it reads the tracker and returns none.
\<close>

definition allocate_pio_sm :: "resource_tracker_t \<Rightarrow> swd_error_t + PIO \<times> uint" where
  "allocate_pio_sm g =
     (case find (\<lambda>i. pio0_sm_owners g ! i = NULL) [0..<4] of
        Some i \<Rightarrow> Inr (pio0, of_nat i)
      | None \<Rightarrow>
          (case find (\<lambda>i. pio1_sm_owners g ! i = NULL) [0..<4] of
             Some i \<Rightarrow> Inr (pio1, of_nat i)
           | None \<Rightarrow> Inl SWD_ERROR_RESOURCE_BUSY))"

definition release_pio_sm :: "PIO \<Rightarrow> uint \<Rightarrow> resource_tracker_t \<Rightarrow> resource_tracker_t" where
  "release_pio_sm p s g =
     (if s \<ge> 4 then g
      else
        let g1 =
              (if p = pio0 then g\<lparr>pio0_sm_owners := (pio0_sm_owners g)[unat s := NULL]\<rparr>
               else if p = pio1 then g\<lparr>pio1_sm_owners := (pio1_sm_owners g)[unat s := NULL]\<rparr>
               else g)
        in if active_count g1 > 0 then g1\<lparr>active_count := active_count g1 - 1\<rparr> else g1)"

definition register_target ::
    "target_ptr \<Rightarrow> PIO \<Rightarrow> uint \<Rightarrow> resource_tracker_t \<Rightarrow> bool \<times> resource_tracker_t" where
  "register_target target p s g =
     (if target = NULL \<or> s \<ge> 4 then (False, g)
      else if p = pio0 then
        (if pio0_sm_owners g ! unat s \<noteq> NULL then (False, g)
         else (True, g\<lparr>pio0_sm_owners := (pio0_sm_owners g)[unat s := target],
                       active_count := active_count g + 1\<rparr>))
      else if p = pio1 then
        (if pio1_sm_owners g ! unat s \<noteq> NULL then (False, g)
         else (True, g\<lparr>pio1_sm_owners := (pio1_sm_owners g)[unat s := target],
                       active_count := active_count g + 1\<rparr>))
      else (False, g))"

text \<open>
  \<^verbatim>\<open>unregister_target\<close>: nothing for \<open>NULL\<close> and for a session that is not registered;
  otherwise the call of \<^verbatim>\<open>release_pio_sm\<close> for the session's slot, which is entered in the
  effects, and the flag cleared.
\<close>

definition unregister_target :: "target_ptr \<Rightarrow> world \<Rightarrow> fault + world" where
  "unregister_target target w =
     (if target = NULL then Inr w
      else
        (case heap w target of
           None \<Rightarrow> Inl DanglingHandle
         | Some t \<Rightarrow>
             if \<not> resource_registered t then Inr w
             else
               Inr (w\<lparr>g_resources := release_pio_sm (pio (pio_st t)) (sm (pio_st t)) (g_resources w),
                      heap := (heap w)(target \<mapsto> t\<lparr>resource_registered := False\<rparr>),
                      effects := effects w @ [SlotRelease (pio (pio_st t)) (sm (pio_st t))]\<rparr>)))"

section \<open>Configuration (swd.c)\<close>

definition swd_config_default :: swd_config_t where
  "swd_config_default =
     \<lparr>cfg_pio = SWD_PIO_AUTO, cfg_sm = SWD_SM_AUTO, cfg_pin_swclk = 0, cfg_pin_swdio = 0,
      cfg_freq_khz = 1000, enable_caching = True, cfg_retry_count = 5\<rparr>"

section \<open>Target lifecycle (swd.c)\<close>

text \<open>
  \<^verbatim>\<open>swd_target_create\<close>, in the order of the source. \<open>create_init\<close> is the fresh block after
  "Initialize defaults" and "Configure PIO"; \<open>create_finish\<close> is everything from
  \<^verbatim>\<open>target->resource_registered = true\<close> to the end of the per-hart loop.
\<close>

definition create_init :: "swd_config_t \<Rightarrow> swd_target" where
  "create_init c =
     zero_target
       \<lparr>last_error := SWD_OK,
        connected := False,
        resource_registered := False,
        pio_st := (pio_st zero_target)
          \<lparr>pin_swclk := cfg_pin_swclk c,
           pin_swdio := cfg_pin_swdio c,
           freq_khz := cfg_freq_khz c,
           pio_initialized := False\<rparr>\<rparr>"

definition set_slot :: "PIO \<Rightarrow> uint \<Rightarrow> swd_target \<Rightarrow> swd_target" where
  "set_slot p s t = t\<lparr>pio_st := (pio_st t)\<lparr>pio := p, sm := s\<rparr>\<rparr>"

definition create_finish :: "swd_config_t \<Rightarrow> swd_target \<Rightarrow> swd_target" where
  "create_finish c t =
     (let t1 = t\<lparr>resource_registered := True\<rparr>;
          t2 = t1\<lparr>dap := (dap t1)
                  \<lparr>powered := False,
                   retry_count := cfg_retry_count c,
                   current_apsel := 0xFF,
                   current_bank := 0xFF\<rparr>\<rparr>;
          t3 = t2\<lparr>rp2350 := (rp2350 t2)
                  \<lparr>cache_enabled := enable_caching c,
                   initialized := False,
                   sba_initialized := False\<rparr>\<rparr>
      in t3\<lparr>rp2350 := (rp2350 t3)
              \<lparr>harts :=
                 fold (\<lambda>i hs. hs[i := (hs ! i)\<lparr>halt_state_known := False, halted := False,
                                               cache_valid := False\<rparr>])
                   [0..<RP2350_NUM_HARTS] (harts (rp2350 t3))\<rparr>\<rparr>)"

text \<open>The two failure exits after \<^verbatim>\<open>calloc\<close>: record the error in the block, free it, return \<open>NULL\<close>.\<close>

definition create_fail ::
    "target_ptr \<Rightarrow> swd_target \<Rightarrow> swd_error_t \<Rightarrow> string \<Rightarrow> world \<Rightarrow> target_ptr \<times> world" where
  "create_fail p t err detail w =
     (NULL, free_target p (w\<lparr>heap := (heap w)(p := swd_set_error (Some t) err (Some detail))\<rparr>))"

definition in_use_detail :: "swd_target \<Rightarrow> string" where
  "in_use_detail t =
     ''PIO'' @ show_int (if pio (pio_st t) = pio0 then 0 else 1)
       @ '' SM'' @ show_int (sint (sm (pio_st t))) @ '' already in use''"

definition create_register ::
    "swd_config_t \<Rightarrow> target_ptr \<Rightarrow> swd_target \<Rightarrow> world \<Rightarrow> target_ptr \<times> world" where
  "create_register c p t w =
     (case register_target p (pio (pio_st t)) (sm (pio_st t)) (g_resources w) of
        (False, g) \<Rightarrow> create_fail p t SWD_ERROR_RESOURCE_BUSY (in_use_detail t) w
      | (True, g) \<Rightarrow> (p, w\<lparr>g_resources := g, heap := (heap w)(p \<mapsto> create_finish c t)\<rparr>))"

text \<open>
  \<open>config\<close> is \<open>None\<close> for a \<open>NULL\<close> configuration pointer. \<open>p\<close> is what \<^verbatim>\<open>calloc\<close> returns:
  \<open>NULL\<close> when memory is exhausted, else the address of the new block. The result is the
  returned handle and the state after the call.
\<close>

definition swd_target_create ::
    "swd_config_t option \<Rightarrow> target_ptr \<Rightarrow> world \<Rightarrow> target_ptr \<times> world" where
  "swd_target_create config p w =
     (case config of
        None \<Rightarrow> (NULL, w)
      | Some c \<Rightarrow>
          if p = NULL then (NULL, w)
          else
            let t = create_init c in
            if cfg_pio c = SWD_PIO_AUTO \<or> cfg_sm c = SWD_SM_AUTO then
              (case allocate_pio_sm (g_resources w) of
                 Inl err \<Rightarrow> create_fail p t err ''No free PIO/SM available'' w
               | Inr (p', s') \<Rightarrow> create_register c p (set_slot p' s' t) w)
            else create_register c p (set_slot (cfg_pio c) (cfg_sm c) t) w)"

text \<open>
  Modelled from the spec: \<^verbatim>\<open>swd_disconnect\<close>, which the note closing swd.c places in
  swd_protocol.c, a file that is not among the sources. Spec 4.2: clear
  CDBGPWRUPREQ/CSYSPWRUPREQ; send line reset; leave pins in input state; swd.h: "Powers
  down debug domains and releases GPIO pins". The session leaves the connected state
  (the spec's session is \<open>Disconnected | Connected(idcode)\<close>) and its DAP is no longer
  powered. The result is the error code, the session afterwards, and the actions
  performed on the hardware, in order. The tracker is not its concern.
\<close>

definition swd_disconnect :: "swd_target \<Rightarrow> swd_error_t \<times> swd_target \<times> hw_action list" where
  "swd_disconnect t =
     (SWD_OK,
      t\<lparr>connected := False, dap := (dap t)\<lparr>powered := False\<rparr>\<rparr>,
      [PowerDownRequest (pio (pio_st t)) (sm (pio_st t)),
       LineReset (pio (pio_st t)) (sm (pio_st t)),
       PinInput (pin_swclk (pio_st t)),
       PinInput (pin_swdio (pio_st t))])"

text \<open>
  \<^verbatim>\<open>swd_target_destroy\<close>, in the order of the source: return on \<open>NULL\<close>; disconnect if
  connected, ignoring the error code; unregister; free.
\<close>

definition swd_target_destroy :: "target_ptr \<Rightarrow> world \<Rightarrow> fault + world" where
  "swd_target_destroy target w =
     (if target = NULL then Inr w
      else
        (case heap w target of
           None \<Rightarrow> Inl DanglingHandle
         | Some t \<Rightarrow>
             let w1 = (if connected t
                       then w\<lparr>heap := (heap w)(target \<mapsto> fst (snd (swd_disconnect t))),
                              effects := effects w @ map Hardware (snd (snd (swd_disconnect t)))\<rparr>
                       else w)
             in
             (case unregister_target target w1 of
                Inl f \<Rightarrow> Inl f
              | Inr w2 \<Rightarrow> Inr (free_target target w2))))"

section \<open>Connection status (swd.c)\<close>

definition swd_read_idcode :: "target_ptr \<Rightarrow> world \<Rightarrow> fault + swd_result_t \<times> world" where
  "swd_read_idcode target w =
     (let result = \<lparr>error = SWD_ERROR_NOT_CONNECTED, rvalue = 0\<rparr> in
      if target = NULL then Inr (result, w)
      else
        (case heap w target of
           None \<Rightarrow> Inl DanglingHandle
         | Some t \<Rightarrow>
             if \<not> connected t then
               Inr (result,
                    w\<lparr>heap := (heap w)(target :=
                         swd_set_error (Some t) SWD_ERROR_NOT_CONNECTED (Some ''Not connected''))\<rparr>)
             else Inr (result\<lparr>rvalue := idcode t, error := SWD_OK\<rparr>, w)))"

section \<open>Slots, call sequences and the tracker invariant\<close>

text \<open>
  The owner recorded for slot \<open>(p, s)\<close>, the slots that exist, and the number of slots
  with an owner.
\<close>

definition owner_of :: "resource_tracker_t \<Rightarrow> PIO \<Rightarrow> uint \<Rightarrow> target_ptr" where
  "owner_of g p s = (if p = pio0 then pio0_sm_owners g ! unat s else pio1_sm_owners g ! unat s)"

definition owned_slots :: "resource_tracker_t \<Rightarrow> nat" where
  "owned_slots g = length (filter (\<lambda>p. p \<noteq> NULL) (pio0_sm_owners g @ pio1_sm_owners g))"

definition is_slot :: "PIO \<Rightarrow> uint \<Rightarrow> bool" where
  "is_slot p s \<longleftrightarrow> (p = pio0 \<or> p = pio1) \<and> s < 4"

text \<open>
  What \<^verbatim>\<open>swd_target_create\<close> needs of a configuration to claim a slot: in auto mode
  some unowned slot, otherwise the named slot, which must exist and be unowned.
\<close>

definition slot_available :: "swd_config_t \<Rightarrow> resource_tracker_t \<Rightarrow> bool" where
  "slot_available c g \<longleftrightarrow>
     (if cfg_pio c = SWD_PIO_AUTO \<or> cfg_sm c = SWD_SM_AUTO
      then \<exists>j<4. pio0_sm_owners g ! j = NULL \<or> pio1_sm_owners g ! j = NULL
      else (cfg_pio c = pio0 \<or> cfg_pio c = pio1) \<and> cfg_sm c < 4
           \<and> owner_of g (cfg_pio c) (cfg_sm c) = NULL)"

text \<open>
  A sequence of lifecycle calls. \<open>Create config p\<close> is a call of \<^verbatim>\<open>swd_target_create\<close> in
  which \<^verbatim>\<open>calloc\<close> returns \<open>p\<close>; \<open>Destroy target\<close> is a call of \<^verbatim>\<open>swd_target_destroy\<close>.
  \<open>run_calls\<close> is the state after the sequence, and \<open>None\<close> for a sequence with no
  defined state: one where a call faults, or one that no C execution produces because
  \<^verbatim>\<open>calloc\<close> hands out a block that is still allocated. With a \<open>NULL\<close> configuration
  \<^verbatim>\<open>calloc\<close> is not reached, and \<open>p\<close> plays no part.
\<close>

datatype lifecycle_call = Create "swd_config_t option" target_ptr | Destroy target_ptr

fun run_calls :: "lifecycle_call list \<Rightarrow> world \<Rightarrow> world option" where
  "run_calls [] w = Some w"
| "run_calls (Create config p # cs) w =
     (if config = None \<or> p = NULL \<or> heap w p = None
      then run_calls cs (snd (swd_target_create config p w))
      else None)"
| "run_calls (Destroy target # cs) w =
     (case swd_target_destroy target w of Inl f \<Rightarrow> None | Inr w' \<Rightarrow> run_calls cs w')"

text \<open>
  The sequences in which every destroy is given \<open>NULL\<close> or a live handle, one that a
  create returned and no destroy has been given since, and in which \<^verbatim>\<open>calloc\<close> returns
  \<open>NULL\<close> or a block that is not allocated.
\<close>

fun valid_calls :: "lifecycle_call list \<Rightarrow> world \<Rightarrow> bool" where
  "valid_calls [] w = True"
| "valid_calls (Create config p # cs) w =
     ((config = None \<or> p = NULL \<or> heap w p = None)
      \<and> valid_calls cs (snd (swd_target_create config p w)))"
| "valid_calls (Destroy target # cs) w =
     ((target = NULL \<or> heap w target \<noteq> None)
      \<and> valid_calls cs (projr (swd_target_destroy target w)))"

text \<open>
  The invariant the tracker and the heap keep together: both owner arrays have four
  entries; \<open>NULL\<close> is not allocated; every owner is a live session configured for the
  slot it owns; every live session is registered, not connected, and owns the slot of
  its configuration; \<open>active_count\<close> counts the owned slots.
\<close>

definition tracker_inv :: "world \<Rightarrow> bool" where
  "tracker_inv w \<longleftrightarrow>
     length (pio0_sm_owners (g_resources w)) = 4 \<and>
     length (pio1_sm_owners (g_resources w)) = 4 \<and>
     heap w NULL = None \<and>
     (\<forall>p s. (p = pio0 \<or> p = pio1) \<and> s < 4 \<and> owner_of (g_resources w) p s \<noteq> NULL \<longrightarrow>
        (\<exists>t. heap w (owner_of (g_resources w) p s) = Some t \<and> pio (pio_st t) = p \<and> sm (pio_st t) = s)) \<and>
     (\<forall>h t. heap w h = Some t \<longrightarrow>
        resource_registered t \<and> \<not> connected t \<and>
        (pio (pio_st t) = pio0 \<or> pio (pio_st t) = pio1) \<and> sm (pio_st t) < 4 \<and>
        owner_of (g_resources w) (pio (pio_st t)) (sm (pio_st t)) = h) \<and>
     unat (active_count (g_resources w)) = owned_slots (g_resources w)"

text \<open>
  Modelled from the spec: a state with one connected session, the session created at
  address 1 with the default configuration on pins 2 and 3 and then connected.
  \<^verbatim>\<open>swd_connect\<close> is not among the sources; it is represented by what the spec's
  \<open>Connected(idcode)\<close> leaves in the session, the connected flag and the IDCODE.
\<close>

definition connected_world :: world where
  "connected_world =
     (let w = snd (swd_target_create
                (Some (swd_config_default\<lparr>cfg_pin_swclk := 2, cfg_pin_swdio := 3\<rparr>)) 1 world_init)
      in w\<lparr>heap := (heap w)(1 \<mapsto> (the (heap w 1))\<lparr>connected := True, idcode := 0x4C013477\<rparr>)\<rparr>)"

section \<open>The debug-module driver\<close>

unbundle bit_operations_syntax

text \<open>
  Modelled from the spec: the debug-module driver. The sources declare the functions
  \<^verbatim>\<open>rp2350_halt\<close>, \<^verbatim>\<open>rp2350_read_reg\<close>, \<^verbatim>\<open>rp2350_write_reg\<close> and \<^verbatim>\<open>rp2350_trace\<close> only through
  their callers in the test suite; rp2350.c, which defines them, and the layers below
  it are not among the sources. The driver state is the per-hart and module state of
  internal.h; the spec fixes the number of harts at two.
\<close>

datatype hart = Hart0 | Hart1

fun hart_index :: "hart \<Rightarrow> nat" where
  "hart_index Hart0 = 0"
| "hart_index Hart1 = 1"

text \<open>A general-purpose register number, \<open>x0\<close> to \<open>x31\<close>.\<close>

type_synonym regno = "5 word"

text \<open>
  Modelled from the spec: the calls the driver makes into the layers it stands on, which
  are not among the sources: a DMI write or read (spec 4.3), an abstract-command register
  read or write on a hart (4.4.3), a 32-bit System Bus Access read (4.4.5) and the
  single-step sequence on a hart (4.4.2). Each is a bus transaction or a group of them.
  The target with the layers below is an input: given the calls made so far and the new
  call, it answers with an \<^verbatim>\<open>{error, value}\<close> pair. The driver's state is the session and
  the calls it has made.
\<close>

datatype dm_call =
    DmiWrite u32 u32
  | DmiRead u32
  | AbstractRead hart u32
  | AbstractWrite hart u32 u32
  | SbaRead32 u32
  | SingleStep hart

type_synonym target_env = "dm_call list \<Rightarrow> dm_call \<Rightarrow> swd_result_t"

record dbg =
  session :: swd_target
  calls :: "dm_call list"

definition outcall :: "target_env \<Rightarrow> dm_call \<Rightarrow> dbg \<Rightarrow> swd_result_t \<times> dbg" where
  "outcall tgt c s = (tgt (calls s) c, s\<lparr>calls := calls s @ [c]\<rparr>)"

definition hart_state :: "hart \<Rightarrow> dbg \<Rightarrow> hart_state_t" where
  "hart_state h s = harts (rp2350 (session s)) ! hart_index h"

definition update_hart :: "hart \<Rightarrow> (hart_state_t \<Rightarrow> hart_state_t) \<Rightarrow> dbg \<Rightarrow> dbg" where
  "update_hart h f s =
     s\<lparr>session := (session s)
         \<lparr>rp2350 := (rp2350 (session s))
            \<lparr>harts := (harts (rp2350 (session s)))
               [hart_index h := f (harts (rp2350 (session s)) ! hart_index h)]\<rparr>\<rparr>\<rparr>"

definition known_halted :: "hart \<Rightarrow> dbg \<Rightarrow> bool" where
  "known_halted h s \<longleftrightarrow> halt_state_known (hart_state h s) \<and> halted (hart_state h s)"

text \<open>
  Modelled from the spec: the addresses and bits of RVDBG 0.13.2, which the spec names
  as the Debug Module it drives: DMCONTROL (haltreq bit 31, hartsel from bit 16,
  dmactive bit 0), DMSTATUS (allhalted bit 9), the \<open>dpc\<close> CSR, and the abstract register
  numbers of the GPRs.
\<close>

definition DM_DMCONTROL :: u32 where "DM_DMCONTROL = 0x10"
definition DM_DMSTATUS :: u32 where "DM_DMSTATUS = 0x11"
definition CSR_DPC :: u32 where "CSR_DPC = 0x7b1"

definition dmcontrol :: "hart \<Rightarrow> bool \<Rightarrow> u32" where
  "dmcontrol h haltreq =
     (if haltreq then push_bit 31 1 else 0) OR push_bit 16 (of_nat (hart_index h)) OR 1"

definition allhalted :: "u32 \<Rightarrow> bool" where
  "allhalted v = bit v 9"

text \<open>
  Modelled from the spec: Halt(h), spec 4.4.2: select hart \<open>h\<close> and write DMCONTROL with
  \<open>haltreq = 1\<close>; poll DMSTATUS until \<open>allhalted\<close>; clear \<open>haltreq\<close>; if already halted,
  return AlreadyHalted. The poll is bounded (spec 5: no operation blocks indefinitely)
  and ends in Timeout; an uninitialised module is NotInitialized (spec 6). "Already
  halted" is what the driver knows: \<open>halted\<close> with \<open>halt_state_known\<close>, which a completed
  halt asserts.
\<close>

fun poll_allhalted :: "target_env \<Rightarrow> nat \<Rightarrow> dbg \<Rightarrow> swd_error_t \<times> dbg" where
  "poll_allhalted tgt 0 s = (SWD_ERROR_TIMEOUT, s)"
| "poll_allhalted tgt (Suc n) s =
     (let (r, s1) = outcall tgt (DmiRead DM_DMSTATUS) s in
      if error r \<noteq> SWD_OK then (error r, s1)
      else if allhalted (rvalue r) then (SWD_OK, s1)
      else poll_allhalted tgt n s1)"

definition rp2350_halt :: "target_env \<Rightarrow> nat \<Rightarrow> hart \<Rightarrow> dbg \<Rightarrow> swd_error_t \<times> dbg" where
  "rp2350_halt tgt budget h s =
     (if \<not> initialized (rp2350 (session s)) then (SWD_ERROR_NOT_INITIALIZED, s)
      else if known_halted h s then (SWD_ERROR_ALREADY_HALTED, s)
      else
        let (r1, s1) = outcall tgt (DmiWrite DM_DMCONTROL (dmcontrol h True)) s in
        if error r1 \<noteq> SWD_OK then (error r1, s1)
        else
          let (e2, s2) = poll_allhalted tgt budget s1 in
          if e2 \<noteq> SWD_OK then (e2, s2)
          else
            let (r3, s3) = outcall tgt (DmiWrite DM_DMCONTROL (dmcontrol h False)) s2 in
            if error r3 \<noteq> SWD_OK then (error r3, s3)
            else (SWD_OK, update_hart h (\<lambda>hs. hs\<lparr>halt_state_known := True, halted := True\<rparr>) s3))"

text \<open>
  Modelled from the spec: register access, spec 4.4.7: \<open>x0\<close> is hard-wired zero, writes
  to it silently succeed and reads return 0 without a bus transaction; any other
  register of a halted hart goes through one abstract command, and a write falsifies
  \<open>cache_valid\<close> (spec 9). A hart not known to be halted is NotHalted (spec 6). The
  register cache is an optimisation the spec allows to be disabled; reads go to the
  target.
\<close>

definition gpr_regno :: "regno \<Rightarrow> u32" where
  "gpr_regno r = 0x1000 + ucast r"

definition rp2350_read_reg :: "target_env \<Rightarrow> hart \<Rightarrow> regno \<Rightarrow> dbg \<Rightarrow> swd_result_t \<times> dbg" where
  "rp2350_read_reg tgt h r s =
     (if r = 0 then (\<lparr>error = SWD_OK, rvalue = 0\<rparr>, s)
      else if \<not> known_halted h s then (\<lparr>error = SWD_ERROR_NOT_HALTED, rvalue = 0\<rparr>, s)
      else outcall tgt (AbstractRead h (gpr_regno r)) s)"

definition rp2350_write_reg :: "target_env \<Rightarrow> hart \<Rightarrow> regno \<Rightarrow> u32 \<Rightarrow> dbg \<Rightarrow> swd_error_t \<times> dbg" where
  "rp2350_write_reg tgt h r v s =
     (if r = 0 then (SWD_OK, s)
      else if \<not> known_halted h s then (SWD_ERROR_NOT_HALTED, s)
      else
        let (rep, s1) = outcall tgt (AbstractWrite h (gpr_regno r) v) s in
        if error rep \<noteq> SWD_OK then (error rep, s1)
        else (SWD_OK, update_hart h (\<lambda>hs. hs\<lparr>cache_valid := False\<rparr>) s1))"

text \<open>
  Modelled from the spec: \<^verbatim>\<open>read_all_gprs\<close>, spec 4.4.7: 32 reads into a buffer,
  short-circuiting \<open>x0\<close> (through \<open>rp2350_read_reg\<close>), stopping at the first error.
\<close>

fun read_gprs_from ::
    "target_env \<Rightarrow> hart \<Rightarrow> nat \<Rightarrow> nat \<Rightarrow> u32 list \<Rightarrow> dbg \<Rightarrow> swd_error_t \<times> u32 list \<times> dbg" where
  "read_gprs_from tgt h 0 r buf s = (SWD_OK, buf, s)"
| "read_gprs_from tgt h (Suc n) r buf s =
     (let (rep, s1) = rp2350_read_reg tgt h (of_nat r) s in
      if error rep \<noteq> SWD_OK then (error rep, buf, s1)
      else read_gprs_from tgt h n (Suc r) (buf @ [rvalue rep]) s1)"

definition rp2350_read_all_gprs :: "target_env \<Rightarrow> hart \<Rightarrow> dbg \<Rightarrow> swd_error_t \<times> u32 list \<times> dbg" where
  "rp2350_read_all_gprs tgt h s = read_gprs_from tgt h 32 0 [] s"

text \<open>
  Modelled from the spec: the PC is read through the \<open>dpc\<close> CSR (4.4.7), on a halted
  hart.
\<close>

definition rp2350_read_pc :: "target_env \<Rightarrow> hart \<Rightarrow> dbg \<Rightarrow> swd_result_t \<times> dbg" where
  "rp2350_read_pc tgt h s =
     (if \<not> known_halted h s then (\<lparr>error = SWD_ERROR_NOT_HALTED, rvalue = 0\<rparr>, s)
      else outcall tgt (AbstractRead h CSR_DPC) s)"

text \<open>
  Modelled from the spec: Step(h), spec 4.4.2: requires an initialised module and a
  halted hart; the step sequence resumes the hart, so cache and \<open>halt_state_known\<close> are
  falsified, and its closing poll for \<open>allhalted\<close> reasserts the halt state when it
  succeeds.
\<close>

definition rp2350_step :: "target_env \<Rightarrow> hart \<Rightarrow> dbg \<Rightarrow> swd_error_t \<times> dbg" where
  "rp2350_step tgt h s =
     (if \<not> initialized (rp2350 (session s)) then (SWD_ERROR_NOT_INITIALIZED, s)
      else if \<not> known_halted h s then (SWD_ERROR_NOT_HALTED, s)
      else
        let (rep, s1) = outcall tgt (SingleStep h) s in
        if error rep \<noteq> SWD_OK then
          (error rep, update_hart h (\<lambda>hs. hs\<lparr>halt_state_known := False, cache_valid := False\<rparr>) s1)
        else
          (SWD_OK,
           update_hart h (\<lambda>hs. hs\<lparr>halt_state_known := True, halted := True, cache_valid := False\<rparr>) s1))"

text \<open>
  Modelled from the spec: the trace record, \<open>regs\<close> present only when register capture
  was requested.
\<close>

record trace_record_t =
  pc :: u32
  instruction :: u32
  regs :: "u32 list option"

text \<open>
  Modelled from the spec: \<^verbatim>\<open>trace(hart, max_instructions, callback, capture_regs)\<close>, spec
  4.5. One iteration reads the PC, reads the instruction word at the PC via SBA,
  snapshots the GPRs if asked, and invokes the callback; if that returns false the loop
  ends, else the hart is single-stepped. Any error ends the loop with the negated error
  code. The loop runs for \<open>i \<in> [0, max)\<close> and returns the count of records delivered.
  The callback with its user data is a function of the records delivered so far, the
  last one being the record of the current invocation; the delivered records are
  returned with the count, one per invocation. The count is a mathematical integer.
\<close>

definition trace_iteration ::
    "target_env \<Rightarrow> hart \<Rightarrow> bool \<Rightarrow> (trace_record_t list \<Rightarrow> bool) \<Rightarrow> trace_record_t list \<Rightarrow> dbg
      \<Rightarrow> (int \<times> trace_record_t list \<times> dbg) + (trace_record_t list \<times> dbg)" where
  "trace_iteration tgt h capture cb delivered s =
     (let (rpc, s1) = rp2350_read_pc tgt h s in
      if error rpc \<noteq> SWD_OK then Inl (- int (error_code (error rpc)), delivered, s1)
      else
        let (rin, s2) = outcall tgt (SbaRead32 (rvalue rpc)) s1 in
        if error rin \<noteq> SWD_OK then Inl (- int (error_code (error rin)), delivered, s2)
        else
          let (eg, gprs, s3) =
                (if capture then rp2350_read_all_gprs tgt h s2 else (SWD_OK, [], s2)) in
          if eg \<noteq> SWD_OK then Inl (- int (error_code eg), delivered, s3)
          else
            let delivered' =
                  delivered @ [\<lparr>pc = rvalue rpc, instruction = rvalue rin,
                                regs = (if capture then Some gprs else None)\<rparr>] in
            if \<not> cb delivered' then Inl (int (length delivered'), delivered', s3)
            else
              let (es, s4) = rp2350_step tgt h s3 in
              if es \<noteq> SWD_OK then Inl (- int (error_code es), delivered', s4)
              else Inr (delivered', s4))"

fun trace_loop ::
    "target_env \<Rightarrow> hart \<Rightarrow> bool \<Rightarrow> (trace_record_t list \<Rightarrow> bool) \<Rightarrow> nat \<Rightarrow> trace_record_t list \<Rightarrow> dbg
      \<Rightarrow> int \<times> trace_record_t list \<times> dbg" where
  "trace_loop tgt h capture cb 0 delivered s = (int (length delivered), delivered, s)"
| "trace_loop tgt h capture cb (Suc n) delivered s =
     (case trace_iteration tgt h capture cb delivered s of
        Inl result \<Rightarrow> result
      | Inr (delivered', s') \<Rightarrow> trace_loop tgt h capture cb n delivered' s')"

definition rp2350_trace ::
    "target_env \<Rightarrow> hart \<Rightarrow> nat \<Rightarrow> (trace_record_t list \<Rightarrow> bool) \<Rightarrow> bool \<Rightarrow> dbg
      \<Rightarrow> int \<times> trace_record_t list \<times> dbg" where
  "rp2350_trace tgt h max_instructions cb capture s = trace_loop tgt h capture cb max_instructions [] s"

text \<open>
  Call \<open>i\<close> of a log, the error the target answered it with, and whether the call failed:
  the answer was not OK. \<open>ready\<close>: the module is initialised and the hart is known to be
  halted.
\<close>

definition call_error :: "target_env \<Rightarrow> dm_call list \<Rightarrow> nat \<Rightarrow> swd_error_t" where
  "call_error tgt cs i = error (tgt (take i cs) (cs ! i))"

definition failed_call :: "target_env \<Rightarrow> dm_call list \<Rightarrow> nat \<Rightarrow> bool" where
  "failed_call tgt cs i \<longleftrightarrow> call_error tgt cs i \<noteq> SWD_OK"

definition ready :: "hart \<Rightarrow> dbg \<Rightarrow> bool" where
  "ready h s \<longleftrightarrow>
     initialized (rp2350 (session s)) \<and> known_halted h s
     \<and> length (harts (rp2350 (session s))) = RP2350_NUM_HARTS"

text \<open>
  What an operation of the driver that returns \<open>err\<close> and takes the state from \<open>s\<close> to \<open>s'\<close>
  does, whatever the target answers. It appends its calls to the log; a call that failed
  is the last call it made, and the error of that call is \<open>err\<close>. Started on a ready hart,
  it either returns OK and leaves the hart ready, or the last call it made failed with
  \<open>err\<close>.
\<close>

definition op_outcome :: "target_env \<Rightarrow> hart \<Rightarrow> dbg \<Rightarrow> dbg \<Rightarrow> swd_error_t \<Rightarrow> bool" where
  "op_outcome tgt h s s' err \<longleftrightarrow>
     (\<exists>new. calls s' = calls s @ new
        \<and> (\<forall>i<length new. failed_call tgt (calls s') (length (calls s) + i) \<longrightarrow>
              Suc i = length new \<and> call_error tgt (calls s') (length (calls s) + i) = err)
        \<and> (ready h s \<longrightarrow>
              (if err = SWD_OK then ready h s'
               else new \<noteq> [] \<and> call_error tgt (calls s') (length (calls s') - 1) = err)))"

text \<open>
  What one iteration of the trace loop can do: deliver one more record on which the
  callback returns false and end the loop with the count; end the loop with the negated
  code of an error, having delivered no record or one on which the callback returned
  true; or deliver one more record on which the callback returns true, step, and go on.
\<close>

definition iteration_outcome ::
    "target_env \<Rightarrow> hart \<Rightarrow> (trace_record_t list \<Rightarrow> bool) \<Rightarrow> trace_record_t list \<Rightarrow> dbg \<Rightarrow>
     (int \<times> trace_record_t list \<times> dbg) + (trace_record_t list \<times> dbg) \<Rightarrow> bool" where
  "iteration_outcome tgt h cb delivered s out \<longleftrightarrow>
     (case out of
        Inl (r, d', s') \<Rightarrow>
          (\<exists>rec. d' = delivered @ [rec]) \<and> \<not> cb d' \<and> r = int (length d')
            \<and> op_outcome tgt h s s' SWD_OK
          \<or> (\<exists>e. e \<noteq> SWD_OK \<and> r = - int (error_code e) \<and> op_outcome tgt h s s' e
                \<and> (d' = delivered \<or> (\<exists>rec. d' = delivered @ [rec]) \<and> cb d'))
      | Inr (d', s') \<Rightarrow>
          (\<exists>rec. d' = delivered @ [rec]) \<and> cb d' \<and> op_outcome tgt h s s' SWD_OK)"

text \<open>
  The loop detector of the test suite, \<^verbatim>\<open>trace_callback_loop_detect\<close> of test_mem.c with
  its context: the first record fixes \<^verbatim>\<open>loop_pc\<close>; each later record at that PC counts one
  turn of the loop, and the callback returns false at the third. As a function of the
  records delivered so far, the last being the current one.
\<close>

definition trace_callback_loop_detect :: "trace_record_t list \<Rightarrow> bool" where
  "trace_callback_loop_detect hist \<longleftrightarrow>
     \<not> (1 < length hist \<and> pc (last hist) = pc (hd hist)
        \<and> 3 \<le> length (filter (\<lambda>r. pc r = pc (hd hist)) (tl hist)))"

text \<open>
  A target running the three-instruction loop of that test at \<open>0x20010300\<close>: its PC
  advances by one instruction with every single-step and returns to the start after the
  third; every call is answered with OK. And the same target with a system bus that
  answers the third instruction fetch with a bus error.
\<close>

fun is_step :: "dm_call \<Rightarrow> bool" where
  "is_step (SingleStep h) = True"
| "is_step c = False"

fun is_fetch :: "dm_call \<Rightarrow> bool" where
  "is_fetch (SbaRead32 a) = True"
| "is_fetch c = False"

definition looping_target :: target_env where
  "looping_target hist c =
     (case c of
        AbstractRead h a \<Rightarrow>
          \<lparr>error = SWD_OK, rvalue = 0x20010300 + 4 * of_nat (length (filter is_step hist) mod 3)\<rparr>
      | _ \<Rightarrow> \<lparr>error = SWD_OK, rvalue = 0x200\<rparr>)"

definition bus_fault_target :: target_env where
  "bus_fault_target hist c =
     (if is_fetch c \<and> length (filter is_fetch hist) = 2
      then \<lparr>error = SWD_ERROR_BUS, rvalue = 0\<rparr>
      else looping_target hist c)"

text \<open>
  A target that answers every call with OK and a status word whose \<open>allhalted\<close> bit is set,
  an initialised session on which nothing was called yet, and that session after
  halting hart 0.
\<close>

definition ideal_target :: target_env where
  "ideal_target hist c = \<lparr>error = SWD_OK, rvalue = 0x200\<rparr>"

text \<open>A target that answers every call with OK and never reports a hart halted.\<close>

definition silent_target :: target_env where
  "silent_target hist c = \<lparr>error = SWD_OK, rvalue = 0\<rparr>"

definition initialised_dbg :: dbg where
  "initialised_dbg =
     \<lparr>session = zero_target\<lparr>connected := True,
                             rp2350 := (rp2350 zero_target)\<lparr>initialized := True\<rparr>\<rparr>,
      calls = []\<rparr>"

definition halted_dbg :: dbg where
  "halted_dbg = snd (rp2350_halt ideal_target 1 Hart0 initialised_dbg)"

section \<open>Properties of swd.c\<close>

subsection \<open>Constants and evaluation\<close>

lemmas ack_defs = SWD_ACK_OK_def SWD_ACK_WAIT_def SWD_ACK_FAULT_def SWD_ACK_ERROR_def

lemmas lifecycle_defs =
  swd_target_create_def create_register_def create_fail_def register_target_def
  allocate_pio_sm_def create_init_def create_finish_def set_slot_def zero_target_def zero_hart_def
  swd_config_default_def world_init_def g_resources_init_def free_target_def
  swd_target_destroy_def unregister_target_def release_pio_sm_def swd_disconnect_def
  SWD_PIO_AUTO_def SWD_SM_AUTO_def pio0_def pio1_def NULL_def RP2350_NUM_HARTS_def

lemma upt4: "[0..<4] = [0, 1, 2, 3]"
  by (simp add: upt_rec)

lemma upt_harts: "[0..<RP2350_NUM_HARTS] = [0, 1]"
  by (simp add: RP2350_NUM_HARTS_def upt_rec)

lemma pio0_neq_pio1: "pio0 \<noteq> pio1"
  by (simp add: pio0_def pio1_def)

lemma unat_sm_of_nat: "i < 4 \<Longrightarrow> unat (of_nat i :: uint) = i"
  by (simp add: unat_of_nat)

lemma sm_of_nat_less: "i < 4 \<Longrightarrow> (of_nat i :: uint) < 4"
  by (simp add: word_less_nat_alt unat_of_nat)

lemma sm_less_unat: "(s :: uint) < 4 \<Longrightarrow> unat s < 4"
  by (simp add: word_less_nat_alt)

lemma unat_sm_inj: "unat (s :: uint) = unat s' \<longleftrightarrow> s = s'"
  by (simp add: word_unat_eq_iff)

subsection \<open>ACK decoding\<close>

text \<open>
  Claim C5. ACK decoding is total and follows the SWD encoding: \<open>001b\<close> is OK, \<open>010b\<close> is
  WAIT, \<open>100b\<close> is FAULT, and every other value of the ACK byte, among them \<open>000b\<close>,
  \<open>011b\<close>, \<open>101b\<close>, \<open>110b\<close> and \<open>111b\<close>, is a protocol error.
\<close>

theorem swd_ack_to_error_decoding:
  "swd_ack_to_error 1 = SWD_OK
   \<and> swd_ack_to_error 2 = SWD_ERROR_WAIT
   \<and> swd_ack_to_error 4 = SWD_ERROR_FAULT
   \<and> swd_ack_to_error 0 = SWD_ERROR_PROTOCOL
   \<and> swd_ack_to_error 3 = SWD_ERROR_PROTOCOL
   \<and> swd_ack_to_error 5 = SWD_ERROR_PROTOCOL
   \<and> swd_ack_to_error 6 = SWD_ERROR_PROTOCOL
   \<and> swd_ack_to_error 7 = SWD_ERROR_PROTOCOL
   \<and> (\<forall>ack. ack \<noteq> 1 \<and> ack \<noteq> 2 \<and> ack \<noteq> 4 \<longrightarrow> swd_ack_to_error ack = SWD_ERROR_PROTOCOL)"
  by (simp add: swd_ack_to_error_def ack_defs)

text \<open>
  The decoding at the OK value and at a value outside the three-bit field.
\<close>

theorem swd_ack_to_error_decoding_witness:
  "swd_ack_to_error 1 = SWD_OK \<and> swd_ack_to_error 0xFF = SWD_ERROR_PROTOCOL"
  using swd_ack_to_error_decoding by simp

subsection \<open>The owner arrays\<close>

lemma count_set_owner:
  "i < length xs \<Longrightarrow> xs ! i = NULL \<Longrightarrow> t \<noteq> NULL \<Longrightarrow>
     length (filter (\<lambda>p. p \<noteq> NULL) (xs[i := t])) = Suc (length (filter (\<lambda>p. p \<noteq> NULL) xs))"
proof (induction xs arbitrary: i)
  case Nil
  then show ?case by simp
next
  case (Cons x xs)
  then show ?case by (cases i) auto
qed

lemma count_clear_owner:
  "i < length xs \<Longrightarrow> xs ! i \<noteq> NULL \<Longrightarrow>
     Suc (length (filter (\<lambda>p. p \<noteq> NULL) (xs[i := NULL]))) = length (filter (\<lambda>p. p \<noteq> NULL) xs)"
proof (induction xs arbitrary: i)
  case Nil
  then show ?case by simp
next
  case (Cons x xs)
  then show ?case by (cases i) auto
qed

lemma owned_slots_le:
  "length (pio0_sm_owners g) = 4 \<Longrightarrow> length (pio1_sm_owners g) = 4 \<Longrightarrow> owned_slots g \<le> 8"
proof -
  assume a: "length (pio0_sm_owners g) = 4" "length (pio1_sm_owners g) = 4"
  have "owned_slots g \<le> length (pio0_sm_owners g @ pio1_sm_owners g)"
    unfolding owned_slots_def by (rule length_filter_le)
  with a show ?thesis by simp
qed

text \<open>What a successful registration does to the tracker.\<close>

lemma register_target_True:
  assumes "register_target t p s g = (True, g')"
  shows "t \<noteq> NULL" "p = pio0 \<or> p = pio1" "s < 4" "owner_of g p s = NULL"
    "active_count g' = active_count g + 1"
    "p = pio0 \<Longrightarrow> pio0_sm_owners g' = (pio0_sm_owners g)[unat s := t] \<and> pio1_sm_owners g' = pio1_sm_owners g"
    "p = pio1 \<Longrightarrow> pio1_sm_owners g' = (pio1_sm_owners g)[unat s := t] \<and> pio0_sm_owners g' = pio0_sm_owners g"
  using assms
  by (auto simp: register_target_def owner_of_def pio0_neq_pio1 pio0_neq_pio1[symmetric]
      split: if_splits)

lemma register_target_False: "register_target t p s g = (False, g') \<Longrightarrow> g' = g"
  by (auto simp: register_target_def split: if_splits)

lemma register_target_True_iff:
  "fst (register_target t p s g) \<longleftrightarrow>
     t \<noteq> NULL \<and> (p = pio0 \<or> p = pio1) \<and> s < 4 \<and> owner_of g p s = NULL"
  by (auto simp: register_target_def owner_of_def pio0_neq_pio1 pio0_neq_pio1[symmetric])

lemma owner_of_register:
  assumes "register_target t p s g = (True, g')"
    and "length (pio0_sm_owners g) = 4" "length (pio1_sm_owners g) = 4"
    and "p' = pio0 \<or> p' = pio1" "s' < 4"
  shows "owner_of g' p' s' = (if p' = p \<and> s' = s then t else owner_of g p' s')"
proof -
  note r = register_target_True[OF assms(1)]
  have us: "unat s < 4" "unat s' < 4" using r(3) assms(5) by (simp_all add: sm_less_unat)
  from r(2) show ?thesis
  proof
    assume p: "p = pio0"
    with r(6) us assms(2-5) show ?thesis
      by (auto simp: owner_of_def pio0_neq_pio1 pio0_neq_pio1[symmetric] nth_list_update unat_sm_inj)
  next
    assume p: "p = pio1"
    with r(7) us assms(2-5) show ?thesis
      by (auto simp: owner_of_def pio0_neq_pio1 pio0_neq_pio1[symmetric] nth_list_update unat_sm_inj)
  qed
qed

lemma owned_slots_register:
  assumes "register_target t p s g = (True, g')"
    and "length (pio0_sm_owners g) = 4" "length (pio1_sm_owners g) = 4"
  shows "owned_slots g' = Suc (owned_slots g)"
proof -
  note r = register_target_True[OF assms(1)]
  have us: "unat s < 4" using r(3) by (simp add: sm_less_unat)
  from r(2) show ?thesis
  proof
    assume p: "p = pio0"
    with r(4) have "pio0_sm_owners g ! unat s = NULL" by (simp add: owner_of_def)
    with p r(6) r(1) us assms(2) show ?thesis
      by (simp add: owned_slots_def count_set_owner)
  next
    assume p: "p = pio1"
    with r(4) have "pio1_sm_owners g ! unat s = NULL"
      by (simp add: owner_of_def pio0_neq_pio1[symmetric])
    with p r(7) r(1) us assms(3) show ?thesis
      by (simp add: owned_slots_def count_set_owner)
  qed
qed

lemma lengths_register:
  assumes "register_target t p s g = (True, g')"
  shows "length (pio0_sm_owners g') = length (pio0_sm_owners g)"
    "length (pio1_sm_owners g') = length (pio1_sm_owners g)"
  using register_target_True(2,6,7)[OF assms] by auto

text \<open>What releasing an owned slot does to the tracker.\<close>

lemma owner_of_release:
  assumes "p = pio0 \<or> p = pio1" "s < 4"
    and "length (pio0_sm_owners g) = 4" "length (pio1_sm_owners g) = 4"
    and "p' = pio0 \<or> p' = pio1" "s' < 4"
  shows "owner_of (release_pio_sm p s g) p' s' = (if p' = p \<and> s' = s then NULL else owner_of g p' s')"
proof -
  have us: "unat s < 4" "unat s' < 4" using assms(2,6) by (simp_all add: sm_less_unat)
  have n4: "\<not> 4 \<le> s" using assms(2) by simp
  from assms(1) us n4 assms(3-6) show ?thesis
    by (auto simp: release_pio_sm_def owner_of_def Let_def pio0_neq_pio1 pio0_neq_pio1[symmetric]
        nth_list_update unat_sm_inj)
qed

lemma lengths_release:
  "length (pio0_sm_owners (release_pio_sm p s g)) = length (pio0_sm_owners g)"
  "length (pio1_sm_owners (release_pio_sm p s g)) = length (pio1_sm_owners g)"
  by (auto simp: release_pio_sm_def Let_def)

lemma owned_slots_release:
  assumes "p = pio0 \<or> p = pio1" "s < 4" "owner_of g p s \<noteq> NULL"
    and "length (pio0_sm_owners g) = 4" "length (pio1_sm_owners g) = 4"
  shows "Suc (owned_slots (release_pio_sm p s g)) = owned_slots g"
proof -
  have us: "unat s < 4" using assms(2) by (simp add: sm_less_unat)
  have n4: "\<not> 4 \<le> s" using assms(2) by simp
  from assms(1) show ?thesis
  proof
    assume p: "p = pio0"
    with assms(3) have "pio0_sm_owners g ! unat s \<noteq> NULL" by (simp add: owner_of_def)
    with p us n4 assms(4) count_clear_owner[of "unat s" "pio0_sm_owners g"] show ?thesis
      by (simp add: owned_slots_def release_pio_sm_def Let_def)
  next
    assume p: "p = pio1"
    with assms(3) have "pio1_sm_owners g ! unat s \<noteq> NULL"
      by (simp add: owner_of_def pio0_neq_pio1[symmetric])
    with p us n4 assms(5) count_clear_owner[of "unat s" "pio1_sm_owners g"] show ?thesis
      by (simp add: owned_slots_def release_pio_sm_def Let_def pio0_neq_pio1[symmetric])
  qed
qed

lemma active_count_release:
  assumes "s < 4" "active_count g \<noteq> 0"
  shows "unat (active_count (release_pio_sm p s g)) = unat (active_count g) - 1"
proof -
  have n4: "\<not> 4 \<le> s" using assms(1) by simp
  have pos: "0 < active_count g" using assms(2) by (simp add: word_neq_0_conv)
  show ?thesis using n4 pos assms(2)
    by (auto simp: release_pio_sm_def Let_def unat_minus_one)
qed

subsection \<open>Allocation\<close>

lemma find_first_free:
  "find (\<lambda>i. xs ! i = NULL) [0..<n] = Some i \<longleftrightarrow> i < n \<and> xs ! i = NULL \<and> (\<forall>j<i. xs ! j \<noteq> NULL)"
  by (auto simp: find_Some_iff)

lemma find_no_free:
  "find (\<lambda>i. xs ! i = NULL) [0..<n] = None \<longleftrightarrow> (\<forall>j<n. xs ! j \<noteq> NULL)"
  by (auto simp: find_None_iff)

lemma allocate_pio0:
  assumes "i < 4" "pio0_sm_owners g ! i = NULL" "\<forall>j<i. pio0_sm_owners g ! j \<noteq> NULL"
  shows "allocate_pio_sm g = Inr (pio0, of_nat i)"
proof -
  have "find (\<lambda>i. pio0_sm_owners g ! i = NULL) [0..<4] = Some i"
    using assms by (simp add: find_first_free)
  then show ?thesis by (simp add: allocate_pio_sm_def)
qed

lemma allocate_pio1:
  assumes "\<forall>j<4. pio0_sm_owners g ! j \<noteq> NULL"
    and "i < 4" "pio1_sm_owners g ! i = NULL" "\<forall>j<i. pio1_sm_owners g ! j \<noteq> NULL"
  shows "allocate_pio_sm g = Inr (pio1, of_nat i)"
proof -
  have "find (\<lambda>i. pio0_sm_owners g ! i = NULL) [0..<4] = None"
    using assms(1) by (simp add: find_no_free)
  moreover have "find (\<lambda>i. pio1_sm_owners g ! i = NULL) [0..<4] = Some i"
    using assms(2-4) by (simp add: find_first_free)
  ultimately show ?thesis by (simp add: allocate_pio_sm_def)
qed

lemma allocate_busy_iff:
  "allocate_pio_sm g = Inl e \<longleftrightarrow>
     e = SWD_ERROR_RESOURCE_BUSY \<and> (\<forall>j<4. pio0_sm_owners g ! j \<noteq> NULL \<and> pio1_sm_owners g ! j \<noteq> NULL)"
proof (cases "find (\<lambda>i. pio0_sm_owners g ! i = NULL) [0..<4]")
  case None
  note n0 = None
  show ?thesis
  proof (cases "find (\<lambda>i. pio1_sm_owners g ! i = NULL) [0..<4]")
    case None
    have a0: "\<forall>j<4. pio0_sm_owners g ! j \<noteq> NULL" using n0 by (simp add: find_no_free)
    have a1: "\<forall>j<4. pio1_sm_owners g ! j \<noteq> NULL" using None by (simp add: find_no_free)
    have "allocate_pio_sm g = Inl SWD_ERROR_RESOURCE_BUSY"
      using n0 None by (simp add: allocate_pio_sm_def)
    with a0 a1 show ?thesis by auto
  next
    case (Some i)
    then have "i < 4 \<and> pio1_sm_owners g ! i = NULL" by (simp add: find_first_free)
    with n0 Some show ?thesis by (auto simp: allocate_pio_sm_def)
  qed
next
  case (Some i)
  then have "i < 4 \<and> pio0_sm_owners g ! i = NULL" by (simp add: find_first_free)
  with Some show ?thesis by (auto simp: allocate_pio_sm_def)
qed

lemma allocate_Inr:
  assumes "allocate_pio_sm g = Inr (p, s)"
  shows "(p = pio0 \<or> p = pio1) \<and> s < 4 \<and> owner_of g p s = NULL"
  using assms
  by (auto simp: allocate_pio_sm_def owner_of_def find_first_free unat_sm_of_nat sm_of_nat_less
      pio0_neq_pio1 pio0_neq_pio1[symmetric] split: option.splits)

lemma register_after_allocate:
  assumes "allocate_pio_sm g = Inr (p, s)" "t \<noteq> NULL"
  shows "fst (register_target t p s g) \<and> active_count (snd (register_target t p s g)) = active_count g + 1"
  using allocate_Inr[OF assms(1)] assms(2)
  by (auto simp: register_target_def owner_of_def pio0_neq_pio1 pio0_neq_pio1[symmetric] NULL_def)

lemma allocate_Inr_iff_available:
  "(\<exists>ps. allocate_pio_sm g = Inr ps) \<longleftrightarrow> (\<exists>j<4. pio0_sm_owners g ! j = NULL \<or> pio1_sm_owners g ! j = NULL)"
proof -
  have "(\<exists>ps. allocate_pio_sm g = Inr ps) \<longleftrightarrow> \<not> (\<exists>e. allocate_pio_sm g = Inl e)"
    by (cases "allocate_pio_sm g") auto
  also have "\<dots> \<longleftrightarrow> \<not> (\<forall>j<4. pio0_sm_owners g ! j \<noteq> NULL \<and> pio1_sm_owners g ! j \<noteq> NULL)"
    by (simp add: allocate_busy_iff)
  finally show ?thesis by blast
qed

text \<open>
  Claim C10. \<^verbatim>\<open>allocate_pio_sm\<close> is first-fit: the lowest unowned state machine of PIO0,
  else the lowest unowned one of PIO1, and ResourceBusy (its only error) exactly when all
  eight slots are owned. It leaves the tracker as it is: the slot it returns is still
  unowned, and it is the \<^verbatim>\<open>register_target\<close> that follows which records the owner and
  counts it.
\<close>

theorem allocate_pio_sm_first_fit:
  "(\<forall>i<4. pio0_sm_owners g ! i = NULL \<and> (\<forall>j<i. pio0_sm_owners g ! j \<noteq> NULL)
        \<longrightarrow> allocate_pio_sm g = Inr (pio0, of_nat i))
   \<and> (\<forall>i<4. (\<forall>j<4. pio0_sm_owners g ! j \<noteq> NULL)
             \<and> pio1_sm_owners g ! i = NULL \<and> (\<forall>j<i. pio1_sm_owners g ! j \<noteq> NULL)
        \<longrightarrow> allocate_pio_sm g = Inr (pio1, of_nat i))
   \<and> (allocate_pio_sm g = Inl SWD_ERROR_RESOURCE_BUSY
        \<longleftrightarrow> (\<forall>j<4. pio0_sm_owners g ! j \<noteq> NULL \<and> pio1_sm_owners g ! j \<noteq> NULL))
   \<and> (\<forall>e. allocate_pio_sm g = Inl e \<longrightarrow> e = SWD_ERROR_RESOURCE_BUSY)
   \<and> (\<forall>p s t. allocate_pio_sm g = Inr (p, s) \<and> t \<noteq> NULL \<longrightarrow>
         is_slot p s \<and> owner_of g p s = NULL
         \<and> fst (register_target t p s g)
         \<and> active_count (snd (register_target t p s g)) = active_count g + 1
         \<and> (length (pio0_sm_owners g) = 4 \<and> length (pio1_sm_owners g) = 4 \<longrightarrow>
              owner_of (snd (register_target t p s g)) p s = t))"
proof -
  have a: "\<forall>i<4. pio0_sm_owners g ! i = NULL \<and> (\<forall>j<i. pio0_sm_owners g ! j \<noteq> NULL)
        \<longrightarrow> allocate_pio_sm g = Inr (pio0, of_nat i)"
    using allocate_pio0 by blast
  have b: "\<forall>i<4. (\<forall>j<4. pio0_sm_owners g ! j \<noteq> NULL)
             \<and> pio1_sm_owners g ! i = NULL \<and> (\<forall>j<i. pio1_sm_owners g ! j \<noteq> NULL)
        \<longrightarrow> allocate_pio_sm g = Inr (pio1, of_nat i)"
    using allocate_pio1 by blast
  have c: "allocate_pio_sm g = Inl SWD_ERROR_RESOURCE_BUSY
        \<longleftrightarrow> (\<forall>j<4. pio0_sm_owners g ! j \<noteq> NULL \<and> pio1_sm_owners g ! j \<noteq> NULL)"
    by (simp add: allocate_busy_iff)
  have d: "\<forall>e. allocate_pio_sm g = Inl e \<longrightarrow> e = SWD_ERROR_RESOURCE_BUSY"
    by (simp add: allocate_busy_iff)
  have e: "\<forall>p s t. allocate_pio_sm g = Inr (p, s) \<and> t \<noteq> NULL \<longrightarrow>
         is_slot p s \<and> owner_of g p s = NULL
         \<and> fst (register_target t p s g)
         \<and> active_count (snd (register_target t p s g)) = active_count g + 1
         \<and> (length (pio0_sm_owners g) = 4 \<and> length (pio1_sm_owners g) = 4 \<longrightarrow>
              owner_of (snd (register_target t p s g)) p s = t)"
  proof (intro allI impI)
    fix p s t
    assume h: "allocate_pio_sm g = Inr (p, s) \<and> t \<noteq> NULL"
    note al = allocate_Inr[OF h[THEN conjunct1]]
    from al have sl: "is_slot p s" "owner_of g p s = NULL" "p = pio0 \<or> p = pio1" "s < 4"
      by (simp_all add: is_slot_def)
    from register_after_allocate[OF h[THEN conjunct1] h[THEN conjunct2]]
    have r: "fst (register_target t p s g)"
      "active_count (snd (register_target t p s g)) = active_count g + 1" by simp_all
    have reg: "register_target t p s g = (True, snd (register_target t p s g))"
      using r(1) by (cases "register_target t p s g") simp
    have "owner_of (snd (register_target t p s g)) p s = t"
      if "length (pio0_sm_owners g) = 4 \<and> length (pio1_sm_owners g) = 4"
      using owner_of_register[OF reg that[THEN conjunct1] that[THEN conjunct2] sl(3,4)] by simp
    with sl(1,2) r show "is_slot p s \<and> owner_of g p s = NULL
         \<and> fst (register_target t p s g)
         \<and> active_count (snd (register_target t p s g)) = active_count g + 1
         \<and> (length (pio0_sm_owners g) = 4 \<and> length (pio1_sm_owners g) = 4 \<longrightarrow>
              owner_of (snd (register_target t p s g)) p s = t)"
      by blast
  qed
  from a b c d e show ?thesis by (intro conjI)
qed

text \<open>
  With slot 0 of PIO0 owned the allocator returns slot 1 of PIO0; with PIO0 full and two
  slots of PIO1 owned it returns slot 2 of PIO1.
\<close>

theorem allocate_pio_sm_first_fit_witness:
  "allocate_pio_sm (g_resources_init\<lparr>pio0_sm_owners := [7, 0, 9, 0]\<rparr>) = Inr (pio0, 1)
   \<and> allocate_pio_sm (g_resources_init\<lparr>pio0_sm_owners := [7, 8, 9, 10], pio1_sm_owners := [11, 12, 0, 0]\<rparr>)
        = Inr (pio1, 2)"
  using allocate_pio_sm_first_fit[of "g_resources_init\<lparr>pio0_sm_owners := [7, 0, 9, 0]\<rparr>",
      THEN conjunct1, rule_format, of 1]
    allocate_pio_sm_first_fit[of "g_resources_init\<lparr>pio0_sm_owners := [7, 8, 9, 10], pio1_sm_owners := [11, 12, 0, 0]\<rparr>",
      THEN conjunct2, THEN conjunct1, rule_format, of 2]
  by (simp add: g_resources_init_def NULL_def nth_Cons' less_Suc_eq numeral_2_eq_2 numeral_3_eq_3 All_less_Suc
      flip: numeral_eq_Suc)

subsection \<open>Creation\<close>

lemma create_finish_fields:
  "pio_st (create_finish c t) = pio_st t"
  "connected (create_finish c t) = connected t"
  "idcode (create_finish c t) = idcode t"
  "last_error (create_finish c t) = last_error t"
  "resource_registered (create_finish c t)"
  by (simp_all add: create_finish_def Let_def)

lemma set_slot_fields:
  "pio (pio_st (set_slot p s t)) = p"
  "sm (pio_st (set_slot p s t)) = s"
  "pin_swclk (pio_st (set_slot p s t)) = pin_swclk (pio_st t)"
  "pin_swdio (pio_st (set_slot p s t)) = pin_swdio (pio_st t)"
  "freq_khz (pio_st (set_slot p s t)) = freq_khz (pio_st t)"
  "connected (set_slot p s t) = connected t"
  "idcode (set_slot p s t) = idcode t"
  "last_error (set_slot p s t) = last_error t"
  "dap (set_slot p s t) = dap t"
  "rp2350 (set_slot p s t) = rp2350 t"
  by (simp_all add: set_slot_def)

lemma create_init_fields:
  "\<not> connected (create_init c)"
  "idcode (create_init c) = 0"
  "last_error (create_init c) = SWD_OK"
  "pin_swclk (pio_st (create_init c)) = cfg_pin_swclk c"
  "pin_swdio (pio_st (create_init c)) = cfg_pin_swdio c"
  "freq_khz (pio_st (create_init c)) = cfg_freq_khz c"
  "rp2350 (create_init c) = rp2350 zero_target"
  "dap (create_init c) = dap zero_target"
  by (simp_all add: create_init_def zero_target_def)

lemma create_finish_dap:
  "current_apsel (dap (create_finish c t)) = 0xFF"
  "current_bank (dap (create_finish c t)) = 0xFF"
  "\<not> powered (dap (create_finish c t))"
  "retry_count (dap (create_finish c t)) = cfg_retry_count c"
  by (simp_all add: create_finish_def Let_def)

lemma create_finish_rp2350:
  "\<not> initialized (rp2350 (create_finish c t))"
  "\<not> sba_initialized (rp2350 (create_finish c t))"
  "cache_enabled (rp2350 (create_finish c t)) = enable_caching c"
  by (simp_all add: create_finish_def Let_def)

lemma create_finish_harts:
  assumes "length (harts (rp2350 t)) = 2"
  shows "length (harts (rp2350 (create_finish c t))) = 2"
    and "i < 2 \<Longrightarrow> \<not> halted (harts (rp2350 (create_finish c t)) ! i)
          \<and> \<not> halt_state_known (harts (rp2350 (create_finish c t)) ! i)
          \<and> \<not> cache_valid (harts (rp2350 (create_finish c t)) ! i)"
proof -
  show "length (harts (rp2350 (create_finish c t))) = 2"
    using assms by (simp add: create_finish_def Let_def upt_harts)
  assume "i < 2"
  then have "i = 0 \<or> i = 1" by auto
  then show "\<not> halted (harts (rp2350 (create_finish c t)) ! i)
          \<and> \<not> halt_state_known (harts (rp2350 (create_finish c t)) ! i)
          \<and> \<not> cache_valid (harts (rp2350 (create_finish c t)) ! i)"
    using assms by (auto simp: create_finish_def Let_def upt_harts nth_list_update)
qed

lemma zero_target_harts: "length (harts (rp2350 zero_target)) = 2"
  by (simp add: zero_target_def RP2350_NUM_HARTS_def)

lemma free_target_absent: "heap w p = None \<Longrightarrow> free_target p w = w"
  by (simp add: free_target_def fun_upd_idem)

lemma create_fail_eq: "create_fail p t err d w = (NULL, free_target p w)"
  by (simp add: create_fail_def free_target_def)

text \<open>The two outcomes of a creation.\<close>

lemma create_register_cases:
  assumes "create_register c p t w = (h, w')"
  shows "(h = NULL \<and> w' = free_target p w \<and> \<not> fst (register_target p (pio (pio_st t)) (sm (pio_st t)) (g_resources w)))
       \<or> (\<exists>g'. h = p \<and> register_target p (pio (pio_st t)) (sm (pio_st t)) (g_resources w) = (True, g')
               \<and> w' = w\<lparr>g_resources := g', heap := (heap w)(p \<mapsto> create_finish c t)\<rparr>)"
proof (cases "register_target p (pio (pio_st t)) (sm (pio_st t)) (g_resources w)")
  case (Pair b g')
  with assms show ?thesis
    by (cases b) (auto simp: create_register_def create_fail_eq)
qed

lemma create_cases:
  assumes "swd_target_create config p w = (h, w')"
  shows "(h = NULL \<and> (w' = w \<or> w' = free_target p w))
       \<or> (\<exists>c ps ss g'. config = Some c \<and> p \<noteq> NULL \<and> h = p
             \<and> register_target p ps ss (g_resources w) = (True, g')
             \<and> w' = w\<lparr>g_resources := g',
                      heap := (heap w)(p \<mapsto> create_finish c (set_slot ps ss (create_init c)))\<rparr>)"
proof (cases config)
  case None
  with assms show ?thesis by (simp add: swd_target_create_def)
next
  case (Some c)
  show ?thesis
  proof (cases "p = NULL")
    case True
    with Some assms show ?thesis by (simp add: swd_target_create_def)
  next
    case False
    show ?thesis
    proof (cases "cfg_pio c = SWD_PIO_AUTO \<or> cfg_sm c = SWD_SM_AUTO")
      case True
      show ?thesis
      proof (cases "allocate_pio_sm (g_resources w)")
        case (Inl e)
        with True Some False assms show ?thesis
          by (auto simp: swd_target_create_def create_fail_eq)
      next
        case (Inr ps)
        obtain p' s' where ps: "ps = (p', s')" by (cases ps)
        with Inr True Some False assms
        have "create_register c p (set_slot p' s' (create_init c)) w = (h, w')"
          by (auto simp: swd_target_create_def)
        from create_register_cases[OF this] Some False show ?thesis
          by (auto simp: set_slot_fields)
      qed
    next
      case auto: False
      with Some False assms
      have "create_register c p (set_slot (cfg_pio c) (cfg_sm c) (create_init c)) w = (h, w')"
        by (auto simp: swd_target_create_def)
      from create_register_cases[OF this] Some False show ?thesis
        by (auto simp: set_slot_fields)
    qed
  qed
qed

lemma create_register_handle:
  "fst (create_register c p t w) \<noteq> NULL \<longleftrightarrow>
     fst (register_target p (pio (pio_st t)) (sm (pio_st t)) (g_resources w))"
proof (cases "register_target p (pio (pio_st t)) (sm (pio_st t)) (g_resources w)")
  case (Pair b g')
  then show ?thesis
    by (cases b) (auto simp: create_register_def create_fail_eq register_target_True(1))
qed

lemma create_handle_iff:
  "fst (swd_target_create (Some c) p w) \<noteq> NULL \<longleftrightarrow> p \<noteq> NULL \<and> slot_available c (g_resources w)"
proof (cases "p = NULL")
  case True
  then show ?thesis by (simp add: swd_target_create_def)
next
  case pn: False
  show ?thesis
  proof (cases "cfg_pio c = SWD_PIO_AUTO \<or> cfg_sm c = SWD_SM_AUTO")
    case True
    show ?thesis
    proof (cases "allocate_pio_sm (g_resources w)")
      case (Inl e)
      then have "\<not> (\<exists>ps. allocate_pio_sm (g_resources w) = Inr ps)" by simp
      then have "\<not> (\<exists>j<4. pio0_sm_owners (g_resources w) ! j = NULL \<or> pio1_sm_owners (g_resources w) ! j = NULL)"
        using allocate_Inr_iff_available[of "g_resources w"] by blast
      with Inl True pn show ?thesis
        by (simp add: swd_target_create_def create_fail_eq slot_available_def)
    next
      case (Inr ps)
      obtain p' s' where ps: "ps = (p', s')" by (cases ps)
      from Inr have "\<exists>ps. allocate_pio_sm (g_resources w) = Inr ps" by blast
      then have av: "\<exists>j<4. pio0_sm_owners (g_resources w) ! j = NULL \<or> pio1_sm_owners (g_resources w) ! j = NULL"
        using allocate_Inr_iff_available[of "g_resources w"] by blast
      from register_after_allocate[OF Inr[unfolded ps] pn]
      have "fst (register_target p p' s' (g_resources w))" by simp
      with Inr ps True pn av show ?thesis
        by (simp add: swd_target_create_def create_register_handle set_slot_fields slot_available_def)
    qed
  next
    case False
    with pn show ?thesis
      by (simp add: swd_target_create_def create_register_handle set_slot_fields slot_available_def
          register_target_True_iff)
  qed
qed

lemma create_register_failure:
  "fst (create_register c p t w) = NULL \<Longrightarrow> p \<noteq> NULL \<Longrightarrow> snd (create_register c p t w) = free_target p w"
  using create_register_cases[OF prod.collapse[symmetric, of "create_register c p t w"]] by auto

lemma create_failure_world:
  assumes "fst (swd_target_create (Some c) p w) = NULL" "p \<noteq> NULL"
  shows "snd (swd_target_create (Some c) p w) = free_target p w"
proof (cases "cfg_pio c = SWD_PIO_AUTO \<or> cfg_sm c = SWD_SM_AUTO")
  case True
  show ?thesis
  proof (cases "allocate_pio_sm (g_resources w)")
    case (Inl e)
    with True assms show ?thesis by (simp add: swd_target_create_def create_fail_eq)
  next
    case (Inr ps)
    obtain p' s' where ps: "ps = (p', s')" by (cases ps)
    with Inr True assms show ?thesis
      by (simp add: swd_target_create_def create_register_failure)
  qed
next
  case False
  with assms show ?thesis by (simp add: swd_target_create_def create_register_failure)
qed

lemma slot_available_pins:
  "slot_available (c\<lparr>cfg_pin_swclk := a, cfg_pin_swdio := b, cfg_freq_khz := f\<rparr>) g = slot_available c g"
  by (simp add: slot_available_def)

text \<open>
  Claim C3. A creation that returns a handle returns a session that is not connected and
  was never put on the wire (IDCODE still zero, line engine not initialised), whose
  SELECT cache holds the invalid \<open>0xFF\<close> for both \<open>apsel\<close> and \<open>bank\<close>, whose DAP is not
  powered, and both of whose harts have \<open>halted\<close>, \<open>halt_state_known\<close> and \<open>cache_valid\<close>
  false.
\<close>

theorem create_returns_disconnected_session:
  assumes "swd_target_create config p w = (h, w')" and "h \<noteq> NULL"
  shows "\<exists>t. heap w' h = Some t
           \<and> \<not> connected t \<and> idcode t = 0 \<and> \<not> pio_initialized (pio_st t)
           \<and> current_apsel (dap t) = 0xFF \<and> current_bank (dap t) = 0xFF
           \<and> \<not> powered (dap t)
           \<and> \<not> initialized (rp2350 t)
           \<and> length (harts (rp2350 t)) = 2
           \<and> (\<forall>i<2. \<not> halted (harts (rp2350 t) ! i)
                    \<and> \<not> halt_state_known (harts (rp2350 t) ! i)
                    \<and> \<not> cache_valid (harts (rp2350 t) ! i))"
proof -
  from create_cases[OF assms(1)] assms(2) obtain c ps ss g' where
    h: "h = p" and
    w': "w' = w\<lparr>g_resources := g',
                heap := (heap w)(p \<mapsto> create_finish c (set_slot ps ss (create_init c)))\<rparr>"
    by blast
  let ?init = "set_slot ps ss (create_init c)"
  let ?fin = "create_finish c ?init"
  have len0: "length (harts (rp2350 ?init)) = 2"
    by (simp add: set_slot_fields create_init_fields zero_target_harts)
  have "heap w' h = Some ?fin" using h w' by simp
  moreover have "\<not> connected ?fin" "idcode ?fin = 0"
    by (simp_all add: create_finish_fields set_slot_fields create_init_fields)
  moreover have "\<not> pio_initialized (pio_st ?fin)"
    by (simp add: create_finish_fields set_slot_def create_init_def)
  moreover note create_finish_dap(1,2,3)[of c ?init] create_finish_rp2350(1)[of c ?init]
    create_finish_harts(1)[OF len0, of c]
  moreover have "\<forall>i<2. \<not> halted (harts (rp2350 ?fin) ! i)
                    \<and> \<not> halt_state_known (harts (rp2350 ?fin) ! i)
                    \<and> \<not> cache_valid (harts (rp2350 ?fin) ! i)"
    using create_finish_harts(2)[OF len0, of _ c] by blast
  ultimately show ?thesis by blast
qed

text \<open>
  A creation with the default configuration from the initial state returns a handle, and
  the session behind it is not connected.
\<close>

theorem create_returns_disconnected_session_witness:
  "fst (swd_target_create (Some swd_config_default) 1 world_init) \<noteq> NULL
   \<and> map_option connected (heap (snd (swd_target_create (Some swd_config_default) 1 world_init))
        (fst (swd_target_create (Some swd_config_default) 1 world_init))) = Some False"
proof -
  have h: "fst (swd_target_create (Some swd_config_default) 1 world_init) \<noteq> NULL"
    by (simp add: lifecycle_defs upt4)
  from create_returns_disconnected_session[OF prod.collapse[symmetric] h] h
  show ?thesis by auto
qed

text \<open>
  Claim C1, as stated, fails: a configuration whose two pins are both 0 and whose
  frequency is 0 kHz is accepted, and the session it creates is registered with
  \<open>last_error\<close> OK.
\<close>

theorem create_accepts_equal_pins_and_zero_frequency:
  "cfg_pin_swclk (swd_config_default\<lparr>cfg_freq_khz := 0\<rparr>) = cfg_pin_swdio (swd_config_default\<lparr>cfg_freq_khz := 0\<rparr>)
   \<and> cfg_freq_khz (swd_config_default\<lparr>cfg_freq_khz := 0\<rparr>) = 0
   \<and> fst (swd_target_create (Some (swd_config_default\<lparr>cfg_freq_khz := 0\<rparr>)) 1 world_init) = 1
   \<and> map_option last_error
        (heap (snd (swd_target_create (Some (swd_config_default\<lparr>cfg_freq_khz := 0\<rparr>)) 1 world_init)) 1)
       = Some SWD_OK
   \<and> map_option resource_registered
        (heap (snd (swd_target_create (Some (swd_config_default\<lparr>cfg_freq_khz := 0\<rparr>)) 1 world_init)) 1)
       = Some True"
  by (simp add: lifecycle_defs upt4 Let_def)

text \<open>
  Claim C1, amended. \<^verbatim>\<open>swd_target_create\<close> does not look at the pins or the frequency:
  changing them never changes whether a handle is returned. With a configuration it
  returns a handle exactly when \<^verbatim>\<open>calloc\<close> succeeded and a slot can be claimed; a session
  it returns stores pins and frequency as given, with \<open>last_error\<close> OK; a refusal is a
  \<open>NULL\<close> handle and nothing else: the tracker is as before and the block is freed.
\<close>

theorem create_does_not_validate_pins_or_frequency:
  "(fst (swd_target_create (Some (c\<lparr>cfg_pin_swclk := a, cfg_pin_swdio := b, cfg_freq_khz := f\<rparr>)) p w) \<noteq> NULL
      \<longleftrightarrow> fst (swd_target_create (Some c) p w) \<noteq> NULL)
   \<and> (fst (swd_target_create (Some c) p w) \<noteq> NULL \<longleftrightarrow> p \<noteq> NULL \<and> slot_available c (g_resources w))
   \<and> (fst (swd_target_create (Some c) p w) \<noteq> NULL \<longrightarrow>
        fst (swd_target_create (Some c) p w) = p
        \<and> (\<exists>t. heap (snd (swd_target_create (Some c) p w)) p = Some t
              \<and> pin_swclk (pio_st t) = cfg_pin_swclk c
              \<and> pin_swdio (pio_st t) = cfg_pin_swdio c
              \<and> freq_khz (pio_st t) = cfg_freq_khz c
              \<and> last_error t = SWD_OK))
   \<and> (fst (swd_target_create (Some c) p w) = NULL \<longrightarrow>
        g_resources (snd (swd_target_create (Some c) p w)) = g_resources w
        \<and> (\<forall>q. q \<noteq> p \<longrightarrow> heap (snd (swd_target_create (Some c) p w)) q = heap w q)
        \<and> (p \<noteq> NULL \<longrightarrow> heap (snd (swd_target_create (Some c) p w)) p = None))"
proof -
  let ?r = "swd_target_create (Some c) p w"
  have a: "fst (swd_target_create (Some (c\<lparr>cfg_pin_swclk := a, cfg_pin_swdio := b, cfg_freq_khz := f\<rparr>)) p w) \<noteq> NULL
      \<longleftrightarrow> fst ?r \<noteq> NULL"
    by (simp only: create_handle_iff slot_available_pins)
  have b: "fst ?r \<noteq> NULL \<longleftrightarrow> p \<noteq> NULL \<and> slot_available c (g_resources w)"
    by (rule create_handle_iff)
  note cc = create_cases[OF prod.collapse[symmetric, of ?r]]
  have c: "fst ?r \<noteq> NULL \<longrightarrow>
        fst ?r = p
        \<and> (\<exists>t. heap (snd ?r) p = Some t
              \<and> pin_swclk (pio_st t) = cfg_pin_swclk c
              \<and> pin_swdio (pio_st t) = cfg_pin_swdio c
              \<and> freq_khz (pio_st t) = cfg_freq_khz c
              \<and> last_error t = SWD_OK)"
  proof
    assume "fst ?r \<noteq> NULL"
    with cc obtain ps ss g' where h: "fst ?r = p"
      and w': "snd ?r = w\<lparr>g_resources := g',
                heap := (heap w)(p \<mapsto> create_finish c (set_slot ps ss (create_init c)))\<rparr>"
      by auto
    show "fst ?r = p
        \<and> (\<exists>t. heap (snd ?r) p = Some t
              \<and> pin_swclk (pio_st t) = cfg_pin_swclk c
              \<and> pin_swdio (pio_st t) = cfg_pin_swdio c
              \<and> freq_khz (pio_st t) = cfg_freq_khz c
              \<and> last_error t = SWD_OK)"
      using h by (simp add: w' create_finish_fields set_slot_fields create_init_fields)
  qed
  have d: "fst ?r = NULL \<longrightarrow>
        g_resources (snd ?r) = g_resources w
        \<and> (\<forall>q. q \<noteq> p \<longrightarrow> heap (snd ?r) q = heap w q)
        \<and> (p \<noteq> NULL \<longrightarrow> heap (snd ?r) p = None)"
  proof
    assume n: "fst ?r = NULL"
    show "g_resources (snd ?r) = g_resources w
        \<and> (\<forall>q. q \<noteq> p \<longrightarrow> heap (snd ?r) q = heap w q)
        \<and> (p \<noteq> NULL \<longrightarrow> heap (snd ?r) p = None)"
    proof (cases "p = NULL")
      case True
      then show ?thesis by (simp add: swd_target_create_def)
    next
      case False
      from create_failure_world[OF n False] show ?thesis
        by (simp add: free_target_def)
    qed
  qed
  from a b c d show ?thesis by (intro conjI)
qed

text \<open>
  Equal pins and a frequency of 0 kHz change nothing: a handle is returned as for the
  default configuration.
\<close>

theorem create_does_not_validate_pins_or_frequency_witness:
  "fst (swd_target_create
          (Some (swd_config_default\<lparr>cfg_pin_swclk := 5, cfg_pin_swdio := 5, cfg_freq_khz := 0\<rparr>))
          1 world_init) \<noteq> NULL"
proof -
  have "fst (swd_target_create (Some swd_config_default) 1 world_init) \<noteq> NULL"
    by (simp add: lifecycle_defs upt4)
  with create_does_not_validate_pins_or_frequency[where c = swd_config_default and a = 5 and b = 5 and f = 0
      and p = 1 and w = world_init]
  show ?thesis by blast
qed

subsection \<open>The tracker invariant\<close>

lemma tracker_inv_create_success:
  assumes inv: "tracker_inv w"
    and fresh: "heap w p = None"
    and reg: "register_target p ps ss (g_resources w) = (True, g')"
    and t: "t = create_finish c (set_slot ps ss (create_init c))"
  shows "tracker_inv (w\<lparr>g_resources := g', heap := (heap w)(p \<mapsto> t)\<rparr>)"
proof -
  let ?g = "g_resources w"
  let ?w' = "w\<lparr>g_resources := g', heap := (heap w)(p \<mapsto> t)\<rparr>"
  note r = register_target_True[OF reg]
  have len: "length (pio0_sm_owners ?g) = 4" "length (pio1_sm_owners ?g) = 4"
    and null: "heap w NULL = None"
    and slots: "\<And>q s. (q = pio0 \<or> q = pio1) \<Longrightarrow> s < 4 \<Longrightarrow> owner_of ?g q s \<noteq> NULL \<Longrightarrow>
        \<exists>u. heap w (owner_of ?g q s) = Some u \<and> pio (pio_st u) = q \<and> sm (pio_st u) = s"
    and sess: "\<And>h u. heap w h = Some u \<Longrightarrow>
        resource_registered u \<and> \<not> connected u \<and>
        (pio (pio_st u) = pio0 \<or> pio (pio_st u) = pio1) \<and> sm (pio_st u) < 4 \<and>
        owner_of ?g (pio (pio_st u)) (sm (pio_st u)) = h"
    and cnt: "unat (active_count ?g) = owned_slots ?g"
    using inv unfolding tracker_inv_def by blast+
  have tf: "pio (pio_st t) = ps" "sm (pio_st t) = ss" "resource_registered t" "\<not> connected t"
    using t by (simp_all add: create_finish_fields set_slot_fields create_init_fields)
  note own = owner_of_register[OF reg len]
  have c1: "length (pio0_sm_owners g') = 4" "length (pio1_sm_owners g') = 4"
    using lengths_register[OF reg] len by simp_all
  have c3: "heap ?w' NULL = None" using r(1) null by simp
  have c4: "\<exists>u. heap ?w' (owner_of g' q s) = Some u \<and> pio (pio_st u) = q \<and> sm (pio_st u) = s"
    if q: "q = pio0 \<or> q = pio1" and s: "s < 4" and o: "owner_of g' q s \<noteq> NULL" for q s
  proof (cases "q = ps \<and> s = ss")
    case True
    then show ?thesis using own[OF q s] tf by simp
  next
    case False
    then have e: "owner_of g' q s = owner_of ?g q s" using own[OF q s] by auto
    with o slots[OF q s] obtain u where u: "heap w (owner_of ?g q s) = Some u"
      "pio (pio_st u) = q" "sm (pio_st u) = s" by auto
    then have "owner_of ?g q s \<noteq> p" using fresh by auto
    with e u show ?thesis by simp
  qed
  have c5: "resource_registered u \<and> \<not> connected u \<and>
        (pio (pio_st u) = pio0 \<or> pio (pio_st u) = pio1) \<and> sm (pio_st u) < 4 \<and>
        owner_of g' (pio (pio_st u)) (sm (pio_st u)) = h"
    if h: "heap ?w' h = Some u" for h u
  proof (cases "h = p")
    case True
    with h have "u = t" by simp
    with tf r(2,3) own[of ps ss] True show ?thesis by simp
  next
    case False
    with h have hu: "heap w h = Some u" by simp
    note s = sess[OF hu]
    have "h \<noteq> NULL" using hu null by auto
    with s r(4) have "\<not> (pio (pio_st u) = ps \<and> sm (pio_st u) = ss)" by auto
    with s own[of "pio (pio_st u)" "sm (pio_st u)"] show ?thesis by auto
  qed
  have "owned_slots ?g \<le> 8" using owned_slots_le[OF len] .
  with cnt have "unat (active_count ?g) + unat (1 :: uint) < 2 ^ LENGTH(32)" by simp
  then have "unat (active_count ?g + 1) = unat (active_count ?g) + unat (1 :: uint)"
    by (simp only: unat_add_lem)
  with cnt r(5) owned_slots_register[OF reg len]
  have c6: "unat (active_count g') = owned_slots g'" by simp
  show ?thesis
    unfolding tracker_inv_def using c1 c3 c4 c5 c6 by simp
qed

lemma tracker_inv_create:
  assumes inv: "tracker_inv w" and fresh: "config = None \<or> p = NULL \<or> heap w p = None"
  shows "tracker_inv (snd (swd_target_create config p w))"
proof (cases "config = None")
  case True
  with inv show ?thesis by (simp add: swd_target_create_def)
next
  case False
  obtain h w' where hw: "swd_target_create config p w = (h, w')"
    by (cases "swd_target_create config p w")
  have none: "heap w p = None" using fresh False inv by (auto simp: tracker_inv_def)
  from create_cases[OF hw] show ?thesis
  proof
    assume "h = NULL \<and> (w' = w \<or> w' = free_target p w)"
    with none inv hw show ?thesis by (auto simp: free_target_absent)
  next
    assume "\<exists>c ps ss g'. config = Some c \<and> p \<noteq> NULL \<and> h = p
             \<and> register_target p ps ss (g_resources w) = (True, g')
             \<and> w' = w\<lparr>g_resources := g',
                      heap := (heap w)(p \<mapsto> create_finish c (set_slot ps ss (create_init c)))\<rparr>"
    then obtain c ps ss g' where
      reg: "register_target p ps ss (g_resources w) = (True, g')" and
      w': "w' = w\<lparr>g_resources := g',
                  heap := (heap w)(p \<mapsto> create_finish c (set_slot ps ss (create_init c)))\<rparr>"
      by blast
    from tracker_inv_create_success[OF inv none reg refl] hw w' show ?thesis by simp
  qed
qed

lemma destroy_live_eq:
  assumes "heap w p = Some t" "p \<noteq> NULL" "\<not> connected t" "resource_registered t"
  shows "swd_target_destroy p w =
     Inr (w\<lparr>g_resources := release_pio_sm (pio (pio_st t)) (sm (pio_st t)) (g_resources w),
            heap := (heap w)(p := None),
            effects := effects w @ [SlotRelease (pio (pio_st t)) (sm (pio_st t))]\<rparr>)"
  using assms by (simp add: swd_target_destroy_def unregister_target_def free_target_def)

lemma tracker_inv_effects: "tracker_inv (w\<lparr>effects := e\<rparr>) \<longleftrightarrow> tracker_inv w"
  by (simp add: tracker_inv_def)

lemma tracker_inv_release:
  assumes inv: "tracker_inv w" and live: "heap w p = Some t"
  shows "tracker_inv (w\<lparr>g_resources := release_pio_sm (pio (pio_st t)) (sm (pio_st t)) (g_resources w),
                        heap := (heap w)(p := None)\<rparr>)"
proof -
  let ?g = "g_resources w"
  let ?ps = "pio (pio_st t)"
  let ?ss = "sm (pio_st t)"
  let ?g' = "release_pio_sm ?ps ?ss ?g"
  let ?w' = "w\<lparr>g_resources := ?g', heap := (heap w)(p := None)\<rparr>"
  have len: "length (pio0_sm_owners ?g) = 4" "length (pio1_sm_owners ?g) = 4"
    and null: "heap w NULL = None"
    and slots: "\<And>q s. (q = pio0 \<or> q = pio1) \<Longrightarrow> s < 4 \<Longrightarrow> owner_of ?g q s \<noteq> NULL \<Longrightarrow>
        \<exists>u. heap w (owner_of ?g q s) = Some u \<and> pio (pio_st u) = q \<and> sm (pio_st u) = s"
    and sess: "\<And>h u. heap w h = Some u \<Longrightarrow>
        resource_registered u \<and> \<not> connected u \<and>
        (pio (pio_st u) = pio0 \<or> pio (pio_st u) = pio1) \<and> sm (pio_st u) < 4 \<and>
        owner_of ?g (pio (pio_st u)) (sm (pio_st u)) = h"
    and cnt: "unat (active_count ?g) = owned_slots ?g"
    using inv unfolding tracker_inv_def by blast+
  have pn: "p \<noteq> NULL" using live null by auto
  have t: "?ps = pio0 \<or> ?ps = pio1" "?ss < 4" "owner_of ?g ?ps ?ss = p"
    using sess[OF live] by simp_all
  note own = owner_of_release[OF t(1,2) len]
  have c1: "length (pio0_sm_owners ?g') = 4" "length (pio1_sm_owners ?g') = 4"
    using len by (simp_all add: lengths_release)
  have c3: "heap ?w' NULL = None" using null by simp
  have c4: "\<exists>u. heap ?w' (owner_of ?g' q s) = Some u \<and> pio (pio_st u) = q \<and> sm (pio_st u) = s"
    if q: "q = pio0 \<or> q = pio1" and s: "s < 4" and o: "owner_of ?g' q s \<noteq> NULL" for q s
  proof -
    from o own[OF q s] have ne: "\<not> (q = ?ps \<and> s = ?ss)" and e: "owner_of ?g' q s = owner_of ?g q s"
      by (auto split: if_splits)
    with o slots[OF q s] obtain u where u: "heap w (owner_of ?g q s) = Some u"
      "pio (pio_st u) = q" "sm (pio_st u) = s" by auto
    have "owner_of ?g q s \<noteq> p"
    proof
      assume "owner_of ?g q s = p"
      with u live have "u = t" by simp
      with u ne show False by simp
    qed
    with e u show ?thesis by simp
  qed
  have c5: "resource_registered u \<and> \<not> connected u \<and>
        (pio (pio_st u) = pio0 \<or> pio (pio_st u) = pio1) \<and> sm (pio_st u) < 4 \<and>
        owner_of ?g' (pio (pio_st u)) (sm (pio_st u)) = h"
    if h: "heap ?w' h = Some u" for h u
  proof -
    from h have hp: "h \<noteq> p" and hu: "heap w h = Some u" by (auto split: if_splits)
    note s = sess[OF hu]
    from s t(3) hp have "\<not> (pio (pio_st u) = ?ps \<and> sm (pio_st u) = ?ss)" by auto
    with s own[of "pio (pio_st u)" "sm (pio_st u)"] show ?thesis by auto
  qed
  have dec: "Suc (owned_slots ?g') = owned_slots ?g"
    using owned_slots_release[OF t(1,2) _ len] t(3) pn by simp
  with cnt have "active_count ?g \<noteq> 0" by (auto simp: unat_eq_0[symmetric] simp del: unat_eq_0)
  from active_count_release[OF t(2) this] cnt dec
  have c6: "unat (active_count ?g') = owned_slots ?g'" by simp
  show ?thesis
    unfolding tracker_inv_def using c1 c3 c4 c5 c6 by simp
qed

lemma tracker_inv_destroy:
  assumes inv: "tracker_inv w" and d: "swd_target_destroy p w = Inr w'"
  shows "tracker_inv w'"
proof (cases "p = NULL")
  case True
  with d inv show ?thesis by (simp add: swd_target_destroy_def)
next
  case False
  with d obtain t where live: "heap w p = Some t"
    by (auto simp: swd_target_destroy_def split: option.splits)
  from inv live have "resource_registered t" "\<not> connected t"
    unfolding tracker_inv_def by blast+
  from destroy_live_eq[OF live False this(2,1)] d tracker_inv_release[OF inv live]
  show ?thesis by (auto simp: tracker_inv_effects)
qed

lemma tracker_inv_init: "tracker_inv world_init"
  by (simp add: tracker_inv_def world_init_def g_resources_init_def owner_of_def owned_slots_def
      nth_Cons' word_less_nat_alt NULL_def)

lemma tracker_inv_run:
  "tracker_inv w \<Longrightarrow> run_calls cs w = Some w' \<Longrightarrow> tracker_inv w'"
proof (induction cs arbitrary: w)
  case Nil
  then show ?case by simp
next
  case (Cons c cs)
  show ?case
  proof (cases c)
    case (Create config p)
    with Cons.prems have ok: "config = None \<or> p = NULL \<or> heap w p = None"
      and r: "run_calls cs (snd (swd_target_create config p w)) = Some w'"
      by (auto split: if_splits)
    from Cons.IH[OF tracker_inv_create[OF Cons.prems(1) ok] r] show ?thesis .
  next
    case (Destroy target)
    with Cons.prems obtain w1 where d: "swd_target_destroy target w = Inr w1"
      and r: "run_calls cs w1 = Some w'"
      by (auto split: sum.splits)
    from Cons.IH[OF tracker_inv_destroy[OF Cons.prems(1) d] r] show ?thesis .
  qed
qed

lemma tracker_inv_slotD:
  assumes "tracker_inv w" "q = pio0 \<or> q = pio1" "s < 4" "owner_of (g_resources w) q s \<noteq> NULL"
  shows "\<exists>u. heap w (owner_of (g_resources w) q s) = Some u \<and> pio (pio_st u) = q \<and> sm (pio_st u) = s"
  using assms unfolding tracker_inv_def by blast

lemma tracker_inv_sessD:
  assumes "tracker_inv w" "heap w h = Some u"
  shows "resource_registered u" "\<not> connected u" "pio (pio_st u) = pio0 \<or> pio (pio_st u) = pio1"
    "sm (pio_st u) < 4" "owner_of (g_resources w) (pio (pio_st u)) (sm (pio_st u)) = h"
  using assms unfolding tracker_inv_def by blast+

lemma tracker_inv_nullD: "tracker_inv w \<Longrightarrow> heap w NULL = None"
  unfolding tracker_inv_def by blast

lemma tracker_inv_countD: "tracker_inv w \<Longrightarrow> unat (active_count (g_resources w)) = owned_slots (g_resources w)"
  unfolding tracker_inv_def by blast

text \<open>
  A destroy is defined exactly on \<open>NULL\<close> and on live handles, so the valid sequences are
  the ones that have a state after them.
\<close>

lemma destroy_defined:
  assumes "target = NULL \<or> heap w target \<noteq> None"
  shows "\<exists>w'. swd_target_destroy target w = Inr w'"
proof (cases "target = NULL")
  case True
  then show ?thesis by (simp add: swd_target_destroy_def)
next
  case False
  with assms obtain t where "heap w target = Some t" by auto
  with False show ?thesis
    by (simp add: swd_target_destroy_def unregister_target_def Let_def)
qed

lemma destroy_dangling:
  "target \<noteq> NULL \<Longrightarrow> heap w target = None \<Longrightarrow> swd_target_destroy target w = Inl DanglingHandle"
  by (simp add: swd_target_destroy_def)

lemma valid_calls_iff: "valid_calls cs w \<longleftrightarrow> run_calls cs w \<noteq> None"
proof (induction cs arbitrary: w)
  case Nil
  show ?case by simp
next
  case (Cons c cs)
  show ?case
  proof (cases c)
    case (Create config p)
    with Cons.IH show ?thesis by simp
  next
    case (Destroy target)
    show ?thesis
    proof (cases "target = NULL \<or> heap w target \<noteq> None")
      case True
      from destroy_defined[OF this] obtain w' where "swd_target_destroy target w = Inr w'" ..
      with True Destroy Cons.IH[of w'] show ?thesis by simp
    next
      case False
      with destroy_dangling[of target w] Destroy show ?thesis by simp
    qed
  qed
qed

text \<open>
  Claim C2, as stated, fails for a sequence that destroys a handle twice: the second
  destroy reads the freed session, and there is no state after it of which the
  invariants could hold.
\<close>

theorem no_tracker_state_after_double_destroy:
  "run_calls [Create (Some swd_config_default) 1, Destroy 1] world_init \<noteq> None
   \<and> run_calls [Create (Some swd_config_default) 1, Destroy 1, Destroy 1] world_init = None"
  by (simp add: lifecycle_defs upt4 Let_def)

text \<open>
  Claim C2, amended. Every sequence of \<^verbatim>\<open>swd_target_create\<close> and \<^verbatim>\<open>swd_target_destroy\<close> calls
  from the zero-initialised tracker in which each destroy is given \<open>NULL\<close> or a live
  handle runs to a state, and in that state: every owned slot is owned by a live session
  configured for exactly that slot, so no session holds two slots and no slot has two
  owners; \<open>active_count\<close> is the number of owned slots; a live session's
  \<open>resource_registered\<close> flag is set iff some slot maps to it; and destroying a live
  session succeeds and leaves no slot that maps to it.
\<close>

theorem tracker_invariants:
  assumes valid: "valid_calls cs world_init"
  shows
    "\<exists>w. run_calls cs world_init = Some w
     \<and> (\<forall>p s. is_slot p s \<and> owner_of (g_resources w) p s \<noteq> NULL \<longrightarrow>
        (\<exists>t. heap w (owner_of (g_resources w) p s) = Some t \<and> pio (pio_st t) = p \<and> sm (pio_st t) = s))
     \<and> (\<forall>p s p' s'. is_slot p s \<and> is_slot p' s' \<and> owner_of (g_resources w) p s \<noteq> NULL
           \<and> owner_of (g_resources w) p s = owner_of (g_resources w) p' s' \<longrightarrow> p = p' \<and> s = s')
     \<and> unat (active_count (g_resources w)) = owned_slots (g_resources w)
     \<and> (\<forall>h t. heap w h = Some t \<longrightarrow>
          (resource_registered t \<longleftrightarrow> (\<exists>p s. is_slot p s \<and> owner_of (g_resources w) p s = h)))
     \<and> (\<forall>h t. heap w h = Some t \<longrightarrow>
          (\<exists>w'. swd_target_destroy h w = Inr w' \<and> heap w' h = None
             \<and> (\<forall>p s. is_slot p s \<longrightarrow> owner_of (g_resources w') p s \<noteq> h)))"
proof -
  from valid obtain w where run: "run_calls cs world_init = Some w"
    by (auto simp: valid_calls_iff)
  let ?g = "g_resources w"
  have inv: "tracker_inv w" using tracker_inv_run[OF tracker_inv_init run] .
  note null = tracker_inv_nullD[OF inv]
  note slots = tracker_inv_slotD[OF inv]
  note sess = tracker_inv_sessD[OF inv]
  note cnt = tracker_inv_countD[OF inv]
  have a: "\<forall>p s. is_slot p s \<and> owner_of ?g p s \<noteq> NULL \<longrightarrow>
        (\<exists>t. heap w (owner_of ?g p s) = Some t \<and> pio (pio_st t) = p \<and> sm (pio_st t) = s)"
    using slots by (auto simp: is_slot_def)
  have b: "\<forall>p s p' s'. is_slot p s \<and> is_slot p' s' \<and> owner_of ?g p s \<noteq> NULL
           \<and> owner_of ?g p s = owner_of ?g p' s' \<longrightarrow> p = p' \<and> s = s'"
  proof (intro allI impI)
    fix p s p' s'
    assume h: "is_slot p s \<and> is_slot p' s' \<and> owner_of ?g p s \<noteq> NULL
           \<and> owner_of ?g p s = owner_of ?g p' s'"
    then have s1: "p = pio0 \<or> p = pio1" "s < 4" and s2: "p' = pio0 \<or> p' = pio1" "s' < 4"
      and n1: "owner_of ?g p s \<noteq> NULL" and n2: "owner_of ?g p' s' \<noteq> NULL"
      and eq: "owner_of ?g p s = owner_of ?g p' s'"
      by (simp_all add: is_slot_def)
    from slots[OF s1 n1] obtain t where t: "heap w (owner_of ?g p s) = Some t" "pio (pio_st t) = p"
      "sm (pio_st t) = s" by blast
    from slots[OF s2 n2] obtain t' where t': "heap w (owner_of ?g p' s') = Some t'"
      "pio (pio_st t') = p'" "sm (pio_st t') = s'" by blast
    from t t' eq show "p = p' \<and> s = s'" by simp
  qed
  have d: "\<forall>h t. heap w h = Some t \<longrightarrow>
          (resource_registered t \<longleftrightarrow> (\<exists>p s. is_slot p s \<and> owner_of ?g p s = h))"
  proof (intro allI impI)
    fix h t
    assume live: "heap w h = Some t"
    note s = sess[OF live]
    from s(3,4,5) have "\<exists>p s. is_slot p s \<and> owner_of ?g p s = h"
      unfolding is_slot_def by blast
    with s(1) show "resource_registered t \<longleftrightarrow> (\<exists>p s. is_slot p s \<and> owner_of ?g p s = h)"
      by simp
  qed
  have e: "\<forall>h t. heap w h = Some t \<longrightarrow>
          (\<exists>w'. swd_target_destroy h w = Inr w' \<and> heap w' h = None
             \<and> (\<forall>p s. is_slot p s \<longrightarrow> owner_of (g_resources w') p s \<noteq> h))"
  proof (intro allI impI)
    fix h t
    assume live: "heap w h = Some t"
    let ?w' = "w\<lparr>g_resources := release_pio_sm (pio (pio_st t)) (sm (pio_st t)) ?g,
                 heap := (heap w)(h := None),
                 effects := effects w @ [SlotRelease (pio (pio_st t)) (sm (pio_st t))]\<rparr>"
    have hn: "h \<noteq> NULL" using live null by auto
    note s = sess[OF live]
    have eq: "swd_target_destroy h w = Inr ?w'"
      using destroy_live_eq[OF live hn s(2,1)] .
    have inv': "tracker_inv ?w'"
      using tracker_inv_release[OF inv live] by (simp add: tracker_inv_effects)
    have "owner_of (g_resources ?w') p s \<noteq> h" if "is_slot p s" for p s
    proof
      assume o: "owner_of (g_resources ?w') p s = h"
      from that have sl: "p = pio0 \<or> p = pio1" "s < 4" by (simp_all add: is_slot_def)
      from o hn have "owner_of (g_resources ?w') p s \<noteq> NULL" by simp
      from tracker_inv_slotD[OF inv' sl this]
      obtain u where "heap ?w' (owner_of (g_resources ?w') p s) = Some u" by blast
      with o show False by simp
    qed
    then have "\<forall>p s. is_slot p s \<longrightarrow> owner_of (g_resources ?w') p s \<noteq> h" by blast
    moreover have "heap ?w' h = None" by simp
    ultimately show "\<exists>w'. swd_target_destroy h w = Inr w' \<and> heap w' h = None
             \<and> (\<forall>p s. is_slot p s \<longrightarrow> owner_of (g_resources w') p s \<noteq> h)"
      using eq by blast
  qed
  from run a b cnt d e show ?thesis by (intro exI[of _ w] conjI)
qed

text \<open>
  Two creations in auto mode and the destruction of the first session: a valid sequence,
  and the invariants hold after it.
\<close>

theorem tracker_invariants_witness:
  "valid_calls [Create (Some swd_config_default) 1, Create (Some swd_config_default) 2, Destroy 1]
     world_init
   \<and> (\<exists>w. run_calls [Create (Some swd_config_default) 1, Create (Some swd_config_default) 2, Destroy 1]
            world_init = Some w
          \<and> unat (active_count (g_resources w)) = owned_slots (g_resources w))"
proof -
  have v: "valid_calls [Create (Some swd_config_default) 1, Create (Some swd_config_default) 2, Destroy 1]
     world_init"
    by (simp add: lifecycle_defs upt4 Let_def)
  from tracker_invariants[OF v] v show ?thesis by blast
qed

subsection \<open>Destruction\<close>

lemma unregister_live:
  assumes "heap w target = Some t" "target \<noteq> NULL"
  shows "unregister_target target w =
     Inr (if resource_registered t
          then w\<lparr>g_resources := release_pio_sm (pio (pio_st t)) (sm (pio_st t)) (g_resources w),
                 heap := (heap w)(target \<mapsto> t\<lparr>resource_registered := False\<rparr>),
                 effects := effects w @ [SlotRelease (pio (pio_st t)) (sm (pio_st t))]\<rparr>
          else w)"
  using assms by (simp add: unregister_target_def)

text \<open>
  Claim C6, as stated, fails on an already-destroyed handle: the second destroy of the
  same handle reads the freed session.
\<close>

theorem destroy_twice_faults:
  "\<not> isl (swd_target_destroy 1 (snd (swd_target_create (Some swd_config_default) 1 world_init)))
   \<and> swd_target_destroy 1
        (projr (swd_target_destroy 1 (snd (swd_target_create (Some swd_config_default) 1 world_init))))
      = Inl DanglingHandle"
  by (simp add: lifecycle_defs upt4 Let_def)

text \<open>
  Claim C6, amended. \<^verbatim>\<open>swd_target_destroy\<close> is a no-op on \<open>NULL\<close>. On a live handle
  it first disconnects if the session is connected (state \<open>w1\<close>: the power-down request,
  the line reset and the release of the two pins have been performed on the session's
  slot and pins, and the session, still allocated and registered as before, is no longer
  connected; nothing is done to the hardware for a session that is not connected), then
  unregisters (state \<open>w2\<close>: the session still allocated, its flag cleared, its slot
  released if it was registered, the release coming after the hardware actions), then
  frees the session; a registered session's slot is unowned afterwards. A handle that
  is neither \<open>NULL\<close> nor live, such as one already destroyed, is not detected: the call
  reads a session that is not there.
\<close>

theorem swd_target_destroy_contract:
  "swd_target_destroy NULL w = Inr w
   \<and> (target \<noteq> NULL \<and> heap w target = Some t \<longrightarrow>
        (\<exists>w1 w2 t1 t2.
            w1 = (if connected t
                  then w\<lparr>heap := (heap w)(target \<mapsto> fst (snd (swd_disconnect t))),
                         effects := effects w @ map Hardware (snd (snd (swd_disconnect t)))\<rparr>
                  else w)
          \<and> effects w1 = effects w @
               (if connected t
                then [Hardware (PowerDownRequest (pio (pio_st t)) (sm (pio_st t))),
                      Hardware (LineReset (pio (pio_st t)) (sm (pio_st t))),
                      Hardware (PinInput (pin_swclk (pio_st t))),
                      Hardware (PinInput (pin_swdio (pio_st t)))]
                else [])
          \<and> heap w1 target = Some t1 \<and> \<not> connected t1
          \<and> resource_registered t1 = resource_registered t \<and> pio_st t1 = pio_st t
          \<and> g_resources w1 = g_resources w
          \<and> unregister_target target w1 = Inr w2
          \<and> heap w2 target = Some t2 \<and> \<not> resource_registered t2
          \<and> g_resources w2 =
               (if resource_registered t
                then release_pio_sm (pio (pio_st t)) (sm (pio_st t)) (g_resources w)
                else g_resources w)
          \<and> effects w2 = effects w1 @
               (if resource_registered t
                then [SlotRelease (pio (pio_st t)) (sm (pio_st t))]
                else [])
          \<and> swd_target_destroy target w = Inr (free_target target w2)
          \<and> g_resources (free_target target w2) = g_resources w2
          \<and> effects (free_target target w2) = effects w2
          \<and> heap (free_target target w2) target = None
          \<and> (\<forall>q. q \<noteq> target \<longrightarrow> heap (free_target target w2) q = heap w q)))
   \<and> (target \<noteq> NULL \<and> heap w target = Some t \<and> resource_registered t
        \<and> is_slot (pio (pio_st t)) (sm (pio_st t))
        \<and> length (pio0_sm_owners (g_resources w)) = 4 \<and> length (pio1_sm_owners (g_resources w)) = 4
       \<longrightarrow> (\<exists>w'. swd_target_destroy target w = Inr w'
              \<and> owner_of (g_resources w') (pio (pio_st t)) (sm (pio_st t)) = NULL))
   \<and> (target \<noteq> NULL \<and> heap w target = None \<longrightarrow>
        swd_target_destroy target w = Inl DanglingHandle)"
proof -
  have a: "swd_target_destroy NULL w = Inr w"
    by (simp add: swd_target_destroy_def)
  have e: "target \<noteq> NULL \<and> heap w target = None \<longrightarrow>
        swd_target_destroy target w = Inl DanglingHandle"
    by (simp add: swd_target_destroy_def)
  have b: "\<exists>w1 w2 t1 t2.
            w1 = (if connected t
                  then w\<lparr>heap := (heap w)(target \<mapsto> fst (snd (swd_disconnect t))),
                         effects := effects w @ map Hardware (snd (snd (swd_disconnect t)))\<rparr>
                  else w)
          \<and> effects w1 = effects w @
               (if connected t
                then [Hardware (PowerDownRequest (pio (pio_st t)) (sm (pio_st t))),
                      Hardware (LineReset (pio (pio_st t)) (sm (pio_st t))),
                      Hardware (PinInput (pin_swclk (pio_st t))),
                      Hardware (PinInput (pin_swdio (pio_st t)))]
                else [])
          \<and> heap w1 target = Some t1 \<and> \<not> connected t1
          \<and> resource_registered t1 = resource_registered t \<and> pio_st t1 = pio_st t
          \<and> g_resources w1 = g_resources w
          \<and> unregister_target target w1 = Inr w2
          \<and> heap w2 target = Some t2 \<and> \<not> resource_registered t2
          \<and> g_resources w2 =
               (if resource_registered t
                then release_pio_sm (pio (pio_st t)) (sm (pio_st t)) (g_resources w)
                else g_resources w)
          \<and> effects w2 = effects w1 @
               (if resource_registered t
                then [SlotRelease (pio (pio_st t)) (sm (pio_st t))]
                else [])
          \<and> swd_target_destroy target w = Inr (free_target target w2)
          \<and> g_resources (free_target target w2) = g_resources w2
          \<and> effects (free_target target w2) = effects w2
          \<and> heap (free_target target w2) target = None
          \<and> (\<forall>q. q \<noteq> target \<longrightarrow> heap (free_target target w2) q = heap w q)"
    if live: "target \<noteq> NULL \<and> heap w target = Some t"
  proof -
    define t1 where "t1 = (if connected t then fst (snd (swd_disconnect t)) else t)"
    define w1 where "w1 = (if connected t
                  then w\<lparr>heap := (heap w)(target \<mapsto> fst (snd (swd_disconnect t))),
                         effects := effects w @ map Hardware (snd (snd (swd_disconnect t)))\<rparr>
                  else w)"
    define t2 where "t2 = (if resource_registered t then t1\<lparr>resource_registered := False\<rparr> else t1)"
    define w2 where "w2 = (if resource_registered t
          then w1\<lparr>g_resources := release_pio_sm (pio (pio_st t)) (sm (pio_st t)) (g_resources w1),
                  heap := (heap w1)(target \<mapsto> t1\<lparr>resource_registered := False\<rparr>),
                  effects := effects w1 @ [SlotRelease (pio (pio_st t)) (sm (pio_st t))]\<rparr>
          else w1)"
    have hw1: "effects w1 = effects w @
               (if connected t
                then [Hardware (PowerDownRequest (pio (pio_st t)) (sm (pio_st t))),
                      Hardware (LineReset (pio (pio_st t)) (sm (pio_st t))),
                      Hardware (PinInput (pin_swclk (pio_st t))),
                      Hardware (PinInput (pin_swdio (pio_st t)))]
                else [])"
      by (simp add: w1_def swd_disconnect_def)
    have h1: "heap w1 target = Some t1" using live by (simp add: w1_def t1_def)
    have f1: "\<not> connected t1" "resource_registered t1 = resource_registered t" "pio_st t1 = pio_st t"
      by (simp_all add: t1_def swd_disconnect_def)
    have g1: "g_resources w1 = g_resources w" by (simp add: w1_def)
    have u: "unregister_target target w1 = Inr w2"
      using unregister_live[OF h1] live f1 by (simp add: w2_def)
    have h2: "heap w2 target = Some t2" using h1 by (simp add: w2_def t2_def)
    have f2: "\<not> resource_registered t2" using f1 by (simp add: t2_def)
    have g2: "g_resources w2 =
               (if resource_registered t
                then release_pio_sm (pio (pio_st t)) (sm (pio_st t)) (g_resources w)
                else g_resources w)"
      using g1 by (simp add: w2_def)
    have hw2: "effects w2 = effects w1 @
               (if resource_registered t
                then [SlotRelease (pio (pio_st t)) (sm (pio_st t))]
                else [])"
      by (simp add: w2_def)
    have d: "swd_target_destroy target w = Inr (free_target target w2)"
      using live u by (simp add: swd_target_destroy_def w1_def)
    have others: "\<forall>q. q \<noteq> target \<longrightarrow> heap (free_target target w2) q = heap w q"
      by (simp add: free_target_def w2_def w1_def)
    have fr: "g_resources (free_target target w2) = g_resources w2"
      "heap (free_target target w2) target = None"
      "effects (free_target target w2) = effects w2"
      by (simp_all add: free_target_def)
    from hw1 h1 f1 g1 u h2 f2 g2 hw2 d fr others w1_def show ?thesis by blast
  qed
  have c: "\<exists>w'. swd_target_destroy target w = Inr w'
              \<and> owner_of (g_resources w') (pio (pio_st t)) (sm (pio_st t)) = NULL"
    if h: "target \<noteq> NULL \<and> heap w target = Some t \<and> resource_registered t
        \<and> is_slot (pio (pio_st t)) (sm (pio_st t))
        \<and> length (pio0_sm_owners (g_resources w)) = 4 \<and> length (pio1_sm_owners (g_resources w)) = 4"
  proof -
    from h have live: "target \<noteq> NULL \<and> heap w target = Some t" by simp
    from b[OF live] h obtain w2 where
      d: "swd_target_destroy target w = Inr (free_target target w2)"
      and g: "g_resources (free_target target w2) = release_pio_sm (pio (pio_st t)) (sm (pio_st t)) (g_resources w)"
      by auto
    from h have sl: "pio (pio_st t) = pio0 \<or> pio (pio_st t) = pio1" "sm (pio_st t) < 4"
      and len: "length (pio0_sm_owners (g_resources w)) = 4" "length (pio1_sm_owners (g_resources w)) = 4"
      by (simp_all add: is_slot_def)
    from owner_of_release[OF sl len sl] g d show ?thesis by simp
  qed
  from a b c e show ?thesis by blast
qed

text \<open>
  Destroying the connected session on pins 2 and 3 of slot 0 of PIO0: the disconnect is
  performed on that slot and those pins, then the slot is released, and afterwards the
  slot is unowned and the session is freed.
\<close>

theorem swd_target_destroy_contract_witness:
  "\<exists>w'. swd_target_destroy 1 connected_world = Inr w'
     \<and> effects w' = [Hardware (PowerDownRequest pio0 0), Hardware (LineReset pio0 0),
                      Hardware (PinInput 2), Hardware (PinInput 3), SlotRelease pio0 0]
     \<and> owner_of (g_resources w') pio0 0 = NULL
     \<and> heap w' 1 = None"
proof -
  let ?t = "the (heap connected_world 1)"
  have live: "(1::nat) \<noteq> NULL \<and> heap connected_world 1 = Some ?t"
    by (simp add: connected_world_def lifecycle_defs upt4 Let_def)
  have reg: "resource_registered ?t \<and> is_slot (pio (pio_st ?t)) (sm (pio_st ?t))
        \<and> length (pio0_sm_owners (g_resources connected_world)) = 4
        \<and> length (pio1_sm_owners (g_resources connected_world)) = 4"
    by (simp add: connected_world_def lifecycle_defs upt4 Let_def is_slot_def)
  have t: "connected ?t \<and> pio (pio_st ?t) = pio0 \<and> sm (pio_st ?t) = 0
        \<and> pin_swclk (pio_st ?t) = 2 \<and> pin_swdio (pio_st ?t) = 3
        \<and> effects connected_world = []"
    by (simp add: connected_world_def lifecycle_defs upt4 Let_def)
  from swd_target_destroy_contract[where w = connected_world and target = 1 and t = ?t] live reg t
  show ?thesis by auto
qed

subsection \<open>Reading the IDCODE\<close>

text \<open>
  Claim C4. \<^verbatim>\<open>swd_read_idcode\<close> returns NotConnected with value 0 for a \<open>NULL\<close> handle and
  for a session that is not connected, and OK with the stored IDCODE for a connected
  session; whenever the error is not OK the value is 0, so the value carries
  information only under OK.
\<close>

theorem swd_read_idcode_contract:
  "swd_read_idcode NULL w = Inr (\<lparr>error = SWD_ERROR_NOT_CONNECTED, rvalue = 0\<rparr>, w)
   \<and> (target \<noteq> NULL \<and> heap w target = Some t \<and> \<not> connected t \<longrightarrow>
        (\<exists>w'. swd_read_idcode target w = Inr (\<lparr>error = SWD_ERROR_NOT_CONNECTED, rvalue = 0\<rparr>, w')))
   \<and> (target \<noteq> NULL \<and> heap w target = Some t \<and> connected t \<longrightarrow>
        swd_read_idcode target w = Inr (\<lparr>error = SWD_OK, rvalue = idcode t\<rparr>, w))
   \<and> (\<forall>r w'. swd_read_idcode target w = Inr (r, w') \<and> error r \<noteq> SWD_OK \<longrightarrow>
        error r = SWD_ERROR_NOT_CONNECTED \<and> rvalue r = 0)"
  by (auto simp: swd_read_idcode_def Let_def split: option.splits if_splits)

text \<open>
  A connected session with a stored IDCODE, and a session that is not connected.
\<close>

theorem swd_read_idcode_contract_witness:
  "swd_read_idcode 1 (world_init\<lparr>heap := [1 \<mapsto> zero_target\<lparr>connected := True, idcode := 0x4C013477\<rparr>]\<rparr>)
     = Inr (\<lparr>error = SWD_OK, rvalue = 0x4C013477\<rparr>,
            world_init\<lparr>heap := [1 \<mapsto> zero_target\<lparr>connected := True, idcode := 0x4C013477\<rparr>]\<rparr>)
   \<and> (\<exists>w'. swd_read_idcode 1 (world_init\<lparr>heap := [1 \<mapsto> zero_target]\<rparr>)
          = Inr (\<lparr>error = SWD_ERROR_NOT_CONNECTED, rvalue = 0\<rparr>, w'))"
  using swd_read_idcode_contract[of "world_init\<lparr>heap := [1 \<mapsto> zero_target\<lparr>connected := True, idcode := 0x4C013477\<rparr>]\<rparr>"
      1 "zero_target\<lparr>connected := True, idcode := 0x4C013477\<rparr>"]
    swd_read_idcode_contract[of "world_init\<lparr>heap := [1 \<mapsto> zero_target]\<rparr>" 1 zero_target]
  by (simp add: NULL_def zero_target_def)

section \<open>Properties of the debug-module driver\<close>

subsection \<open>Driver state and calls\<close>

lemma hart_index_lt: "hart_index h < RP2350_NUM_HARTS"
  by (cases h) (simp_all add: RP2350_NUM_HARTS_def)

lemma outcall_session: "session (snd (outcall tgt c s)) = session s"
  by (simp add: outcall_def)

lemma outcall_calls: "calls (snd (outcall tgt c s)) = calls s @ [c]"
  by (simp add: outcall_def)

lemma outcall_reply: "fst (outcall tgt c s) = tgt (calls s) c"
  by (simp add: outcall_def)

lemma update_hart_calls: "calls (update_hart h f s) = calls s"
  by (simp add: update_hart_def)

lemma update_hart_initialized:
  "initialized (rp2350 (session (update_hart h f s))) = initialized (rp2350 (session s))"
  by (simp add: update_hart_def)

lemma update_hart_length:
  "length (harts (rp2350 (session (update_hart h f s)))) = length (harts (rp2350 (session s)))"
  by (simp add: update_hart_def)

lemma hart_state_update:
  "length (harts (rp2350 (session s))) = RP2350_NUM_HARTS \<Longrightarrow>
     hart_state h (update_hart h f s) = f (hart_state h s)"
  using hart_index_lt[of h] by (simp add: hart_state_def update_hart_def)

lemma known_halted_session:
  "session s' = session s \<Longrightarrow> known_halted h s' = known_halted h s"
  by (simp add: known_halted_def hart_state_def)

lemma ready_session: "session s' = session s \<Longrightarrow> ready h s' = ready h s"
  by (simp add: ready_def known_halted_def hart_state_def)

subsection \<open>Halt\<close>

lemma poll_allhalted_session: "session (snd (poll_allhalted tgt n s)) = session s"
proof (induction n arbitrary: s)
  case 0
  then show ?case by simp
next
  case (Suc n)
  obtain r s1 where o: "outcall tgt (DmiRead DM_DMSTATUS) s = (r, s1)"
    by (cases "outcall tgt (DmiRead DM_DMSTATUS) s")
  then have s1: "session s1 = session s" using outcall_session[of tgt "DmiRead DM_DMSTATUS" s] by simp
  show ?case using o s1 Suc.IH[of s1] by simp
qed

lemma halt_unfold:
  assumes "initialized (rp2350 (session s))" "\<not> known_halted h s"
    and "outcall tgt (DmiWrite DM_DMCONTROL (dmcontrol h True)) s = (r1, s1)"
    and "poll_allhalted tgt budget s1 = (e2, s2)"
    and "outcall tgt (DmiWrite DM_DMCONTROL (dmcontrol h False)) s2 = (r3, s3)"
  shows "rp2350_halt tgt budget h s =
     (if error r1 \<noteq> SWD_OK then (error r1, s1)
      else if e2 \<noteq> SWD_OK then (e2, s2)
      else if error r3 \<noteq> SWD_OK then (error r3, s3)
      else (SWD_OK, update_hart h (\<lambda>hs. hs\<lparr>halt_state_known := True, halted := True\<rparr>) s3))"
  using assms by (simp add: rp2350_halt_def)

lemma halt_not_initialized:
  "\<not> initialized (rp2350 (session s)) \<Longrightarrow> rp2350_halt tgt budget h s = (SWD_ERROR_NOT_INITIALIZED, s)"
  by (simp add: rp2350_halt_def)

lemma halt_known_halted:
  "initialized (rp2350 (session s)) \<Longrightarrow> known_halted h s \<Longrightarrow>
     rp2350_halt tgt budget h s = (SWD_ERROR_ALREADY_HALTED, s)"
  by (simp add: rp2350_halt_def)

text \<open>
  A halt that returns OK, and a halt of a hart already known halted, leave the hart known
  halted on an initialised module.
\<close>

lemma halt_done_state:
  assumes len: "length (harts (rp2350 (session s))) = RP2350_NUM_HARTS"
    and ok: "fst (rp2350_halt tgt budget h s) = SWD_OK
         \<or> initialized (rp2350 (session s)) \<and> known_halted h s"
  shows "initialized (rp2350 (session (snd (rp2350_halt tgt budget h s))))
       \<and> known_halted h (snd (rp2350_halt tgt budget h s))"
proof (cases "initialized (rp2350 (session s))")
  case False
  with ok show ?thesis by (simp add: halt_not_initialized)
next
  case init: True
  show ?thesis
  proof (cases "known_halted h s")
    case True
    with init show ?thesis by (simp add: halt_known_halted)
  next
    case nk: False
    with ok have ok': "fst (rp2350_halt tgt budget h s) = SWD_OK" by simp
    obtain r1 s1 where o1: "outcall tgt (DmiWrite DM_DMCONTROL (dmcontrol h True)) s = (r1, s1)"
      by (cases "outcall tgt (DmiWrite DM_DMCONTROL (dmcontrol h True)) s")
    obtain e2 s2 where o2: "poll_allhalted tgt budget s1 = (e2, s2)"
      by (cases "poll_allhalted tgt budget s1")
    obtain r3 s3 where o3: "outcall tgt (DmiWrite DM_DMCONTROL (dmcontrol h False)) s2 = (r3, s3)"
      by (cases "outcall tgt (DmiWrite DM_DMCONTROL (dmcontrol h False)) s2")
    note u = halt_unfold[OF init nk o1 o2 o3]
    have s1: "session s1 = session s"
      using outcall_session[of tgt "DmiWrite DM_DMCONTROL (dmcontrol h True)" s] o1 by simp
    have s2: "session s2 = session s1"
      using poll_allhalted_session[of tgt budget s1] o2 by simp
    have s3: "session s3 = session s2"
      using outcall_session[of tgt "DmiWrite DM_DMCONTROL (dmcontrol h False)" s2] o3 by simp
    from ok' u
    have res: "rp2350_halt tgt budget h s =
        (SWD_OK, update_hart h (\<lambda>hs. hs\<lparr>halt_state_known := True, halted := True\<rparr>) s3)"
      by (simp split: if_splits)
    have len3: "length (harts (rp2350 (session s3))) = RP2350_NUM_HARTS"
      using s1 s2 s3 len by simp
    have i3: "initialized (rp2350 (session s3))" using s1 s2 s3 init by simp
    show ?thesis
      using res i3 hart_state_update[OF len3]
      by (simp add: update_hart_initialized known_halted_def)
  qed
qed

lemma initialised_dbg_harts: "length (harts (rp2350 (session initialised_dbg))) = RP2350_NUM_HARTS"
  by (simp add: initialised_dbg_def zero_target_def)

lemma first_halt_ok: "fst (rp2350_halt ideal_target 1 Hart0 initialised_dbg) = SWD_OK"
  by (simp add: rp2350_halt_def initialised_dbg_def zero_target_def zero_hart_def known_halted_def
      hart_state_def RP2350_NUM_HARTS_def outcall_def ideal_target_def allhalted_def)

lemma halted_dbg_ready: "ready Hart0 halted_dbg"
proof -
  from halt_done_state[OF initialised_dbg_harts, of ideal_target 1 Hart0] first_halt_ok
  have "initialized (rp2350 (session halted_dbg)) \<and> known_halted Hart0 halted_dbg"
    by (simp add: halted_dbg_def)
  moreover have "length (harts (rp2350 (session halted_dbg))) = RP2350_NUM_HARTS"
    using first_halt_ok
    by (simp add: halted_dbg_def rp2350_halt_def initialised_dbg_def zero_target_def zero_hart_def
        known_halted_def hart_state_def RP2350_NUM_HARTS_def outcall_def ideal_target_def
        allhalted_def update_hart_def)
  ultimately show ?thesis by (simp add: ready_def)
qed

text \<open>
  Claim C7, as stated, fails when the first halt fails: on an initialised module whose
  hart never reports halted, the first \<open>halt\<close> times out, and the second times out as
  well instead of returning AlreadyHalted.
\<close>

theorem halt_twice_on_silent_target:
  "fst (rp2350_halt silent_target 3 Hart0 initialised_dbg) = SWD_ERROR_TIMEOUT
   \<and> fst (rp2350_halt silent_target 3 Hart0
            (snd (rp2350_halt silent_target 3 Hart0 initialised_dbg))) = SWD_ERROR_TIMEOUT"
  by (simp add: rp2350_halt_def initialised_dbg_def zero_target_def zero_hart_def known_halted_def
      hart_state_def RP2350_NUM_HARTS_def outcall_def silent_target_def allhalted_def
      numeral_3_eq_3)

text \<open>
  Claim C7, amended. Halt is idempotent once it has succeeded: for either hart, when a
  first \<open>halt(h)\<close> returns OK, or is called on an initialised module for a hart already
  known to be halted, where it returns AlreadyHalted, a second \<open>halt(h)\<close> right after it
  returns AlreadyHalted and changes nothing, so the hart's state is the state the first
  call left.
\<close>

theorem halt_idempotent:
  assumes "length (harts (rp2350 (session s))) = RP2350_NUM_HARTS"
    and "fst (rp2350_halt tgt budget h s) = SWD_OK
         \<or> initialized (rp2350 (session s)) \<and> known_halted h s"
  shows "rp2350_halt tgt budget h (snd (rp2350_halt tgt budget h s))
           = (SWD_ERROR_ALREADY_HALTED, snd (rp2350_halt tgt budget h s))
       \<and> hart_state h (snd (rp2350_halt tgt budget h (snd (rp2350_halt tgt budget h s))))
           = hart_state h (snd (rp2350_halt tgt budget h s))
       \<and> (initialized (rp2350 (session s)) \<and> known_halted h s \<longrightarrow>
            fst (rp2350_halt tgt budget h s) = SWD_ERROR_ALREADY_HALTED)"
proof -
  from halt_done_state[OF assms]
  have "rp2350_halt tgt budget h (snd (rp2350_halt tgt budget h s))
           = (SWD_ERROR_ALREADY_HALTED, snd (rp2350_halt tgt budget h s))"
    by (simp add: halt_known_halted)
  then show ?thesis by (simp add: halt_known_halted)
qed

text \<open>
  Halting hart 0 of the initialised session on the ideal target returns OK, and halting
  it again returns AlreadyHalted and the same state.
\<close>

theorem halt_idempotent_witness:
  "fst (rp2350_halt ideal_target 1 Hart0 initialised_dbg) = SWD_OK
   \<and> rp2350_halt ideal_target 1 Hart0 halted_dbg = (SWD_ERROR_ALREADY_HALTED, halted_dbg)"
proof -
  from halt_idempotent[OF initialised_dbg_harts, of ideal_target 1 Hart0] first_halt_ok
  show ?thesis by (simp add: halted_dbg_def)
qed

subsection \<open>Register x0\<close>

text \<open>
  Claim C9. For every hart and every 32-bit value \<open>w\<close>, \<open>write_reg(h, 0, w)\<close> returns OK and
  leaves the driver state and the call log as they were, and the \<open>read_reg(h, 0)\<close> that
  follows returns OK with value 0, again without a call: no bus transaction is issued
  for \<open>x0\<close>. A write or read of any other register of a halted hart does issue its
  abstract command.
\<close>

theorem x0_hardwired_zero:
  "rp2350_write_reg tgt h 0 w s = (SWD_OK, s)
   \<and> rp2350_read_reg tgt h 0 (snd (rp2350_write_reg tgt h 0 w s)) = (\<lparr>error = SWD_OK, rvalue = 0\<rparr>, s)
   \<and> calls (snd (rp2350_read_reg tgt h 0 (snd (rp2350_write_reg tgt h 0 w s)))) = calls s
   \<and> (r \<noteq> 0 \<and> known_halted h s \<longrightarrow>
        calls (snd (rp2350_write_reg tgt h r w s)) = calls s @ [AbstractWrite h (gpr_regno r) w]
        \<and> calls (snd (rp2350_read_reg tgt h r s)) = calls s @ [AbstractRead h (gpr_regno r)])"
  by (simp add: rp2350_write_reg_def rp2350_read_reg_def outcall_def update_hart_calls
      case_prod_beta)

text \<open>
  On the halted session a write to \<open>x5\<close> issues its abstract command, and a write to \<open>x0\<close>
  changes nothing.
\<close>

theorem x0_hardwired_zero_witness:
  "calls (snd (rp2350_write_reg ideal_target Hart0 5 0xAAAAAAAA halted_dbg))
     = calls halted_dbg @ [AbstractWrite Hart0 (gpr_regno 5) 0xAAAAAAAA]
   \<and> rp2350_write_reg ideal_target Hart0 0 0xAAAAAAAA halted_dbg = (SWD_OK, halted_dbg)"
  using x0_hardwired_zero[where tgt = ideal_target and h = Hart0 and r = 5 and w = "0xAAAAAAAA"
      and s = halted_dbg] halted_dbg_ready
  by (simp add: ready_def)

subsection \<open>Tracing\<close>

lemma error_code_pos: "e \<noteq> SWD_OK \<Longrightarrow> 0 < error_code e"
  by (cases e) simp_all

lemma neg_error_code: "e \<noteq> SWD_OK \<Longrightarrow> - int (error_code e) < 0"
  using error_code_pos[of e] by simp

lemma call_error_append: "j < length xs \<Longrightarrow> call_error tgt (xs @ ys) j = call_error tgt xs j"
  by (simp add: call_error_def nth_append)

lemma failed_call_append: "j < length xs \<Longrightarrow> failed_call tgt (xs @ ys) j = failed_call tgt xs j"
  by (simp add: failed_call_def call_error_append)

text \<open>The operations the trace loop is made of, each with its outcome.\<close>

lemma op_same:
  assumes "calls s' = calls s" and "ready h s \<Longrightarrow> err = SWD_OK \<and> ready h s'"
  shows "op_outcome tgt h s s' err"
  unfolding op_outcome_def using assms by (intro exI[of _ "[]"]) auto

lemma op_later:
  assumes "op_outcome tgt h s s1 err" and "calls s2 = calls s1"
    and "err = SWD_OK \<Longrightarrow> ready h s1 \<Longrightarrow> ready h s2"
  shows "op_outcome tgt h s s2 err"
proof -
  from assms(1) obtain new where n: "calls s1 = calls s @ new"
    and c: "\<forall>i<length new. failed_call tgt (calls s1) (length (calls s) + i) \<longrightarrow>
              Suc i = length new \<and> call_error tgt (calls s1) (length (calls s) + i) = err"
    and r: "ready h s \<longrightarrow>
              (if err = SWD_OK then ready h s1
               else new \<noteq> [] \<and> call_error tgt (calls s1) (length (calls s1) - 1) = err)"
    unfolding op_outcome_def by blast
  from r assms(3) have r2: "ready h s \<longrightarrow>
              (if err = SWD_OK then ready h s2
               else new \<noteq> [] \<and> call_error tgt (calls s1) (length (calls s1) - 1) = err)"
    by auto
  show ?thesis
    unfolding op_outcome_def assms(2)
    using n c r2 by blast
qed

lemma op_trans:
  assumes a: "op_outcome tgt h s s1 SWD_OK" and b: "op_outcome tgt h s1 s2 err"
  shows "op_outcome tgt h s s2 err"
proof -
  from a obtain n1 where n1: "calls s1 = calls s @ n1"
    and c1: "\<And>i. i < length n1 \<Longrightarrow> \<not> failed_call tgt (calls s1) (length (calls s) + i)"
    and r1: "ready h s \<Longrightarrow> ready h s1"
    unfolding op_outcome_def failed_call_def by auto
  from b obtain n2 where n2: "calls s2 = calls s1 @ n2"
    and c2: "\<And>i. i < length n2 \<Longrightarrow> failed_call tgt (calls s2) (length (calls s1) + i) \<Longrightarrow>
                Suc i = length n2 \<and> call_error tgt (calls s2) (length (calls s1) + i) = err"
    and r2: "ready h s1 \<Longrightarrow>
              (if err = SWD_OK then ready h s2
               else n2 \<noteq> [] \<and> call_error tgt (calls s2) (length (calls s2) - 1) = err)"
    unfolding op_outcome_def by blast
  have app: "calls s2 = calls s @ (n1 @ n2)" using n1 n2 by simp
  have cl: "Suc i = length (n1 @ n2) \<and> call_error tgt (calls s2) (length (calls s) + i) = err"
    if i: "i < length (n1 @ n2)" and f: "failed_call tgt (calls s2) (length (calls s) + i)" for i
  proof (cases "i < length n1")
    case True
    then have "length (calls s) + i < length (calls s1)" using n1 by simp
    from failed_call_append[OF this, of tgt n2] f n2 c1[OF True] show ?thesis by simp
  next
    case False
    define j where "j = i - length n1"
    have j: "j < length n2" "i = length n1 + j" using False i by (simp_all add: j_def)
    have eq: "length (calls s) + i = length (calls s1) + j" using n1 j by simp
    from f have "failed_call tgt (calls s2) (length (calls s1) + j)" by (simp only: eq)
    from c2[OF j(1) this]
    have "Suc j = length n2" "call_error tgt (calls s2) (length (calls s) + i) = err"
      by (simp_all only: eq)
    with j show ?thesis by simp
  qed
  have rd: "if err = SWD_OK then ready h s2
            else n1 @ n2 \<noteq> [] \<and> call_error tgt (calls s2) (length (calls s2) - 1) = err"
    if "ready h s"
    using r2[OF r1[OF that]] by (simp split: if_splits)
  show ?thesis
    unfolding op_outcome_def
    using app cl rd by (intro exI[of _ "n1 @ n2"]) blast
qed

lemma op_outcall:
  "op_outcome tgt h s (snd (outcall tgt c s)) (error (fst (outcall tgt c s)))"
  unfolding op_outcome_def
  by (rule exI[of _ "[c]"])
     (simp add: outcall_def failed_call_def call_error_def ready_def known_halted_def hart_state_def)

lemma op_read_pc:
  "op_outcome tgt h s (snd (rp2350_read_pc tgt h s)) (error (fst (rp2350_read_pc tgt h s)))"
proof (cases "known_halted h s")
  case True
  with op_outcall[of tgt h s "AbstractRead h CSR_DPC"] show ?thesis
    by (simp add: rp2350_read_pc_def)
next
  case False
  then have "op_outcome tgt h s s SWD_ERROR_NOT_HALTED"
    by (intro op_same) (simp_all add: ready_def)
  with False show ?thesis by (simp add: rp2350_read_pc_def)
qed

lemma op_read_reg:
  "op_outcome tgt h s (snd (rp2350_read_reg tgt h r s)) (error (fst (rp2350_read_reg tgt h r s)))"
proof (cases "r = 0")
  case True
  then show ?thesis by (simp add: rp2350_read_reg_def op_same)
next
  case nz: False
  show ?thesis
  proof (cases "known_halted h s")
    case True
    with nz op_outcall[of tgt h s "AbstractRead h (gpr_regno r)"] show ?thesis
      by (simp add: rp2350_read_reg_def)
  next
    case False
    then have "op_outcome tgt h s s SWD_ERROR_NOT_HALTED"
      by (intro op_same) (simp_all add: ready_def)
    with nz False show ?thesis by (simp add: rp2350_read_reg_def)
  qed
qed

lemma op_read_gprs_from:
  "op_outcome tgt h s (snd (snd (read_gprs_from tgt h n r buf s)))
     (fst (read_gprs_from tgt h n r buf s))"
proof (induction n arbitrary: r buf s)
  case 0
  then show ?case by (simp add: op_same)
next
  case (Suc n)
  obtain rep s1 where o: "rp2350_read_reg tgt h (of_nat r) s = (rep, s1)"
    by (cases "rp2350_read_reg tgt h (of_nat r) s")
  have e1: "op_outcome tgt h s s1 (error rep)"
    using op_read_reg[of tgt h s "of_nat r"] o by simp
  show ?case
  proof (cases "error rep = SWD_OK")
    case True
    with e1 have "op_outcome tgt h s s1 SWD_OK" by simp
    from op_trans[OF this Suc.IH[of s1 "Suc r" "buf @ [rvalue rep]"]] o True show ?thesis by simp
  next
    case False
    with e1 o show ?thesis by simp
  qed
qed

lemma op_read_all_gprs:
  "op_outcome tgt h s (snd (snd (rp2350_read_all_gprs tgt h s))) (fst (rp2350_read_all_gprs tgt h s))"
  by (simp add: rp2350_read_all_gprs_def op_read_gprs_from)

lemma ready_after_step:
  assumes "ready h s"
  shows "ready h (update_hart h (\<lambda>hs. hs\<lparr>halt_state_known := True, halted := True, cache_valid := False\<rparr>) s)"
proof -
  from assms have len: "length (harts (rp2350 (session s))) = RP2350_NUM_HARTS"
    and init: "initialized (rp2350 (session s))" by (simp_all add: ready_def)
  show ?thesis
    using init len hart_state_update[OF len]
    by (simp add: ready_def update_hart_initialized update_hart_length known_halted_def)
qed

lemma op_step:
  "op_outcome tgt h s (snd (rp2350_step tgt h s)) (fst (rp2350_step tgt h s))"
proof (cases "initialized (rp2350 (session s)) \<and> known_halted h s")
  case False
  then have "op_outcome tgt h s s e" for e
    by (intro op_same) (auto simp: ready_def)
  with False show ?thesis by (auto simp: rp2350_step_def)
next
  case True
  obtain rep s1 where o: "outcall tgt (SingleStep h) s = (rep, s1)"
    by (cases "outcall tgt (SingleStep h) s")
  have e1: "op_outcome tgt h s s1 (error rep)"
    using op_outcall[of tgt h s "SingleStep h"] o by simp
  show ?thesis
  proof (cases "error rep = SWD_OK")
    case ok: True
    with True o have "rp2350_step tgt h s = (SWD_OK,
        update_hart h (\<lambda>hs. hs\<lparr>halt_state_known := True, halted := True, cache_valid := False\<rparr>) s1)"
      by (simp add: rp2350_step_def)
    moreover have "op_outcome tgt h s
        (update_hart h (\<lambda>hs. hs\<lparr>halt_state_known := True, halted := True, cache_valid := False\<rparr>) s1)
        (error rep)"
      by (rule op_later[OF e1]) (simp_all add: update_hart_calls ready_after_step)
    ultimately show ?thesis using ok by simp
  next
    case err: False
    with True o have "rp2350_step tgt h s = (error rep,
        update_hart h (\<lambda>hs. hs\<lparr>halt_state_known := False, cache_valid := False\<rparr>) s1)"
      by (simp add: rp2350_step_def)
    moreover have "op_outcome tgt h s
        (update_hart h (\<lambda>hs. hs\<lparr>halt_state_known := False, cache_valid := False\<rparr>) s1) (error rep)"
      by (rule op_later[OF e1]) (simp_all add: update_hart_calls err)
    ultimately show ?thesis by simp
  qed
qed

text \<open>One iteration of the loop, whatever the target answers and whatever the callback decides.\<close>

lemma trace_iteration_outcome:
  "iteration_outcome tgt h cb delivered s (trace_iteration tgt h capture cb delivered s)"
proof -
  obtain rpc s1 where o1: "rp2350_read_pc tgt h s = (rpc, s1)"
    by (cases "rp2350_read_pc tgt h s")
  have e1: "op_outcome tgt h s s1 (error rpc)"
    using op_read_pc[of tgt h s] o1 by simp
  show ?thesis
  proof (cases "error rpc = SWD_OK")
    case False
    then have "trace_iteration tgt h capture cb delivered s
        = Inl (- int (error_code (error rpc)), delivered, s1)"
      using o1 by (simp add: trace_iteration_def)
    with e1 False show ?thesis by (auto simp: iteration_outcome_def)
  next
    case k1: True
    with e1 have c1: "op_outcome tgt h s s1 SWD_OK" by simp
    obtain rin s2 where o2: "outcall tgt (SbaRead32 (rvalue rpc)) s1 = (rin, s2)"
      by (cases "outcall tgt (SbaRead32 (rvalue rpc)) s1")
    have e2: "op_outcome tgt h s s2 (error rin)"
      using op_trans[OF c1 op_outcall[of tgt h s1 "SbaRead32 (rvalue rpc)"]] o2 by simp
    show ?thesis
    proof (cases "error rin = SWD_OK")
      case False
      then have "trace_iteration tgt h capture cb delivered s
          = Inl (- int (error_code (error rin)), delivered, s2)"
        using o1 k1 o2 by (simp add: trace_iteration_def)
      with e2 False show ?thesis by (auto simp: iteration_outcome_def)
    next
      case k2: True
      with e2 have c2: "op_outcome tgt h s s2 SWD_OK" by simp
      obtain eg gprs s3 where o3:
        "(if capture then rp2350_read_all_gprs tgt h s2 else (SWD_OK, [], s2)) = (eg, gprs, s3)"
        by (cases "if capture then rp2350_read_all_gprs tgt h s2 else (SWD_OK, [], s2)")
      have "op_outcome tgt h s2 s3 eg"
        using o3 op_read_all_gprs[of tgt h s2]
        by (auto simp: op_same split: if_splits)
      from op_trans[OF c2 this] have e3: "op_outcome tgt h s s3 eg" .
      show ?thesis
      proof (cases "eg = SWD_OK")
        case False
        then have "trace_iteration tgt h capture cb delivered s
            = Inl (- int (error_code eg), delivered, s3)"
          using o1 k1 o2 k2 o3 by (simp add: trace_iteration_def)
        with e3 False show ?thesis by (auto simp: iteration_outcome_def)
      next
        case k3: True
        with e3 have c3: "op_outcome tgt h s s3 SWD_OK" by simp
        define rec where "rec = \<lparr>pc = rvalue rpc, instruction = rvalue rin,
                                regs = (if capture then Some gprs else None)\<rparr>"
        define d' where "d' = delivered @ [rec]"
        show ?thesis
        proof (cases "cb d'")
          case False
          then have "trace_iteration tgt h capture cb delivered s = Inl (int (length d'), d', s3)"
            using o1 k1 o2 k2 o3 k3 by (simp add: trace_iteration_def d'_def rec_def)
          with c3 False d'_def show ?thesis by (auto simp: iteration_outcome_def)
        next
          case k4: True
          obtain es s4 where o4: "rp2350_step tgt h s3 = (es, s4)"
            by (cases "rp2350_step tgt h s3")
          have "op_outcome tgt h s3 s4 es"
            using op_step[of tgt h s3] o4 by simp
          from op_trans[OF c3 this] have e4: "op_outcome tgt h s s4 es" .
          show ?thesis
          proof (cases "es = SWD_OK")
            case False
            then have "trace_iteration tgt h capture cb delivered s
                = Inl (- int (error_code es), d', s4)"
              using o1 k1 o2 k2 o3 k3 k4 o4 by (simp add: trace_iteration_def d'_def rec_def)
            with e4 False k4 d'_def show ?thesis by (auto simp: iteration_outcome_def)
          next
            case True
            then have "trace_iteration tgt h capture cb delivered s = Inr (d', s4)"
              using o1 k1 o2 k2 o3 k3 k4 o4 by (simp add: trace_iteration_def d'_def rec_def)
            with e4 True k4 d'_def show ?thesis by (auto simp: iteration_outcome_def)
          qed
        qed
      qed
    qed
  qed
qed

text \<open>
  The whole loop, from any number of records already delivered: it delivers at most \<open>n\<close>
  more; the callback returned true on every new record but possibly the last; and it ends
  either with the count, after \<open>n\<close> new records or after one on which the callback
  returned false, or with the negated code of an error.
\<close>

lemma trace_loop_outcome:
  "trace_loop tgt h capture cb n delivered s = (r, recs, s') \<Longrightarrow>
     (\<exists>new. recs = delivered @ new \<and> length new \<le> n)
     \<and> (\<forall>k. length delivered < k \<and> k < length recs \<longrightarrow> cb (take k recs))
     \<and> (r = int (length recs) \<and> op_outcome tgt h s s' SWD_OK
          \<and> (length recs = length delivered + n \<or> length delivered < length recs \<and> \<not> cb recs)
        \<or> (\<exists>e. e \<noteq> SWD_OK \<and> r = - int (error_code e) \<and> op_outcome tgt h s s' e
              \<and> (length delivered < length recs \<longrightarrow> cb recs)))"
proof (induction n arbitrary: delivered s)
  case 0
  have "op_outcome tgt h s s SWD_OK" by (intro op_same) simp_all
  with 0 show ?case by auto
next
  case (Suc n)
  note io = trace_iteration_outcome[of tgt h cb delivered s capture]
  show ?case
  proof (cases "trace_iteration tgt h capture cb delivered s")
    case (Inl res)
    with Suc.prems have res: "res = (r, recs, s')" by simp
    from io Inl res have
      "(\<exists>rec. recs = delivered @ [rec]) \<and> \<not> cb recs \<and> r = int (length recs)
            \<and> op_outcome tgt h s s' SWD_OK
       \<or> (\<exists>e. e \<noteq> SWD_OK \<and> r = - int (error_code e) \<and> op_outcome tgt h s s' e
                \<and> (recs = delivered \<or> (\<exists>rec. recs = delivered @ [rec]) \<and> cb recs))"
      by (simp add: iteration_outcome_def)
    then show ?thesis
    proof
      assume "(\<exists>rec. recs = delivered @ [rec]) \<and> \<not> cb recs \<and> r = int (length recs)
            \<and> op_outcome tgt h s s' SWD_OK"
      then show ?thesis by auto
    next
      assume "\<exists>e. e \<noteq> SWD_OK \<and> r = - int (error_code e) \<and> op_outcome tgt h s s' e
                \<and> (recs = delivered \<or> (\<exists>rec. recs = delivered @ [rec]) \<and> cb recs)"
      then obtain e where e: "e \<noteq> SWD_OK" "r = - int (error_code e)" "op_outcome tgt h s s' e"
        and d: "recs = delivered \<or> (\<exists>rec. recs = delivered @ [rec]) \<and> cb recs" by blast
      from d have p1: "\<exists>new. recs = delivered @ new \<and> length new \<le> Suc n" by auto
      from d have p2: "\<forall>k. length delivered < k \<and> k < length recs \<longrightarrow> cb (take k recs)" by auto
      from d have p3: "length delivered < length recs \<longrightarrow> cb recs" by auto
      from p1 p2 p3 e show ?thesis by blast
    qed
  next
    case (Inr cont)
    obtain d' s1 where cont: "cont = (d', s1)" by (cases cont)
    from io Inr cont obtain rec where d': "d' = delivered @ [rec]" and cbd: "cb d'"
      and o1: "op_outcome tgt h s s1 SWD_OK"
      by (auto simp: iteration_outcome_def)
    from Suc.prems Inr cont have t: "trace_loop tgt h capture cb n d' s1 = (r, recs, s')" by simp
    from Suc.IH[OF t] obtain new where new: "recs = d' @ new" "length new \<le> n"
      and ih2: "\<forall>k. length d' < k \<and> k < length recs \<longrightarrow> cb (take k recs)"
      and ih3: "r = int (length recs) \<and> op_outcome tgt h s1 s' SWD_OK
          \<and> (length recs = length d' + n \<or> length d' < length recs \<and> \<not> cb recs)
        \<or> (\<exists>e. e \<noteq> SWD_OK \<and> r = - int (error_code e) \<and> op_outcome tgt h s1 s' e
              \<and> (length d' < length recs \<longrightarrow> cb recs))"
      by blast
    have p1: "\<exists>new. recs = delivered @ new \<and> length new \<le> Suc n"
      using new d' by (intro exI[of _ "rec # new"]) simp
    have p2: "\<forall>k. length delivered < k \<and> k < length recs \<longrightarrow> cb (take k recs)"
    proof (intro allI impI)
      fix k
      assume k: "length delivered < k \<and> k < length recs"
      show "cb (take k recs)"
      proof (cases "k = length d'")
        case True
        then have "take k recs = d'" using new by simp
        with cbd show ?thesis by simp
      next
        case False
        with k d' have "length d' < k \<and> k < length recs" by simp
        with ih2 show ?thesis by blast
      qed
    qed
    have last_true: "cb recs" if "\<not> length d' < length recs"
    proof -
      from that new have "recs = d'" by simp
      with cbd show ?thesis by simp
    qed
    from ih3 show ?thesis
    proof
      assume a: "r = int (length recs) \<and> op_outcome tgt h s1 s' SWD_OK
          \<and> (length recs = length d' + n \<or> length d' < length recs \<and> \<not> cb recs)"
      then have "op_outcome tgt h s s' SWD_OK" using op_trans[OF o1] by blast
      moreover from a d'
      have "length recs = length delivered + Suc n \<or> length delivered < length recs \<and> \<not> cb recs"
        by auto
      ultimately show ?thesis using a p1 p2 by blast
    next
      assume "\<exists>e. e \<noteq> SWD_OK \<and> r = - int (error_code e) \<and> op_outcome tgt h s1 s' e
              \<and> (length d' < length recs \<longrightarrow> cb recs)"
      then obtain e where e: "e \<noteq> SWD_OK" "r = - int (error_code e)" "op_outcome tgt h s1 s' e"
        and c: "length d' < length recs \<longrightarrow> cb recs" by blast
      from op_trans[OF o1 e(3)] have o: "op_outcome tgt h s s' e" .
      from c last_true have "length delivered < length recs \<longrightarrow> cb recs" by blast
      with e(1,2) o p1 p2 show ?thesis by blast
    qed
  qed
qed


lemma op_outcome_prefix: "op_outcome tgt h s s' e \<Longrightarrow> take (length (calls s)) (calls s') = calls s"
  unfolding op_outcome_def by auto

lemma op_outcome_failed:
  assumes "op_outcome tgt h s s' e" and "length (calls s) \<le> i" and "i < length (calls s')"
    and "failed_call tgt (calls s') i"
  shows "Suc i = length (calls s') \<and> call_error tgt (calls s') i = e"
proof -
  from assms(1) obtain new where new: "calls s' = calls s @ new"
    and cl: "\<And>j. j < length new \<Longrightarrow> failed_call tgt (calls s') (length (calls s) + j) \<Longrightarrow>
                Suc j = length new \<and> call_error tgt (calls s') (length (calls s) + j) = e"
    unfolding op_outcome_def by blast
  define j where "j = i - length (calls s)"
  have j: "j < length new" "length (calls s) + j = i" using assms(2,3) new by (auto simp: j_def)
  from assms(4) j(2) have "failed_call tgt (calls s') (length (calls s) + j)" by simp
  from cl[OF j(1) this] new j show ?thesis by auto
qed

lemma op_outcome_ready_error:
  assumes "op_outcome tgt h s s' e" and "ready h s" and "e \<noteq> SWD_OK"
  shows "\<exists>i. length (calls s) \<le> i \<and> i < length (calls s') \<and> failed_call tgt (calls s') i"
proof -
  from assms obtain new where new: "calls s' = calls s @ new" "new \<noteq> []"
    and ce: "call_error tgt (calls s') (length (calls s') - 1) = e"
    unfolding op_outcome_def by auto
  from new have "length (calls s) \<le> length (calls s') - 1" "length (calls s') - 1 < length (calls s')"
    by (cases new; simp)+
  moreover from ce assms(3) have "failed_call tgt (calls s') (length (calls s') - 1)"
    by (simp add: failed_call_def)
  ultimately show ?thesis by blast
qed

text \<open>
  Claim C8. Let \<open>trace\<close> with bound \<open>n\<close> return \<open>r\<close> with the records \<open>recs\<close> it delivered, one
  per invocation of the callback, the \<open>k\<close>-th invocation being on the first \<open>k\<close> records.
  Whatever the target answers and whatever the callback computes: at most \<open>n\<close> records
  are delivered and \<open>r\<close> is at most \<open>n\<close>; \<open>r\<close> is the number of records delivered or the
  negation of an error code; every invocation but the last returned true; and if the
  \<open>k\<close>-th invocation returned false, it was the last and \<open>r = k\<close>. For a halted hart on an
  initialised module: if no call that \<open>trace\<close> made failed and every invocation returned
  true, there were exactly \<open>n\<close> invocations and \<open>r = n\<close>; and a negative result means that a
  call failed. A call that failed is the last call \<open>trace\<close> made, and \<open>r\<close> is the negated
  code of the error the target answered it with, a negative number.
\<close>

theorem trace_count_contract:
  assumes "rp2350_trace tgt h n cb capture s = (r, recs, s')"
  shows
    "length recs \<le> n \<and> r \<le> int n
     \<and> (r = int (length recs) \<or> (\<exists>e. e \<noteq> SWD_OK \<and> r = - int (error_code e)))
     \<and> (\<forall>k. 1 \<le> k \<and> k < length recs \<longrightarrow> cb (take k recs))
     \<and> (\<forall>k. 1 \<le> k \<and> k \<le> length recs \<and> \<not> cb (take k recs) \<longrightarrow> r = int k \<and> length recs = k)
     \<and> (ready h s
          \<and> (\<forall>i. length (calls s) \<le> i \<and> i < length (calls s') \<longrightarrow> \<not> failed_call tgt (calls s') i)
          \<and> (\<forall>k. 1 \<le> k \<and> k \<le> length recs \<longrightarrow> cb (take k recs))
         \<longrightarrow> r = int n \<and> length recs = n)
     \<and> (ready h s \<and> r < 0 \<longrightarrow>
          (\<exists>i. length (calls s) \<le> i \<and> i < length (calls s') \<and> failed_call tgt (calls s') i))
     \<and> take (length (calls s)) (calls s') = calls s
     \<and> (\<forall>i. length (calls s) \<le> i \<and> i < length (calls s') \<and> failed_call tgt (calls s') i \<longrightarrow>
          Suc i = length (calls s')
          \<and> r = - int (error_code (call_error tgt (calls s') i)) \<and> r < 0)"
proof -
  from assms have t: "trace_loop tgt h capture cb n [] s = (r, recs, s')"
    by (simp add: rp2350_trace_def)
  note o = trace_loop_outcome[OF t]
  from o have len: "length recs \<le> n" by auto
  from o have p2: "\<forall>k. 1 \<le> k \<and> k < length recs \<longrightarrow> cb (take k recs)" by auto
  from o have p3:
    "r = int (length recs) \<and> op_outcome tgt h s s' SWD_OK
        \<and> (length recs = n \<or> 0 < length recs \<and> \<not> cb recs)
     \<or> (\<exists>e. e \<noteq> SWD_OK \<and> r = - int (error_code e) \<and> op_outcome tgt h s s' e
            \<and> (0 < length recs \<longrightarrow> cb recs))"
    by simp
  from p3 show ?thesis
  proof
    assume a: "r = int (length recs) \<and> op_outcome tgt h s s' SWD_OK
        \<and> (length recs = n \<or> 0 < length recs \<and> \<not> cb recs)"
    then have r: "r = int (length recs)" and oc: "op_outcome tgt h s s' SWD_OK"
      and fin: "length recs = n \<or> 0 < length recs \<and> \<not> cb recs" by simp_all
    have c1: "length recs \<le> n \<and> r \<le> int n" using len r by simp
    have c2: "r = int (length recs) \<or> (\<exists>e. e \<noteq> SWD_OK \<and> r = - int (error_code e))"
      using r by simp
    have c4: "\<forall>k. 1 \<le> k \<and> k \<le> length recs \<and> \<not> cb (take k recs) \<longrightarrow> r = int k \<and> length recs = k"
    proof (intro allI impI)
      fix k
      assume k: "1 \<le> k \<and> k \<le> length recs \<and> \<not> cb (take k recs)"
      with p2 have "k = length recs" by (cases "k < length recs") auto
      with r show "r = int k \<and> length recs = k" by simp
    qed
    have c5: "ready h s
          \<and> (\<forall>i. length (calls s) \<le> i \<and> i < length (calls s') \<longrightarrow> \<not> failed_call tgt (calls s') i)
          \<and> (\<forall>k. 1 \<le> k \<and> k \<le> length recs \<longrightarrow> cb (take k recs))
         \<longrightarrow> r = int n \<and> length recs = n"
    proof
      assume h: "ready h s
          \<and> (\<forall>i. length (calls s) \<le> i \<and> i < length (calls s') \<longrightarrow> \<not> failed_call tgt (calls s') i)
          \<and> (\<forall>k. 1 \<le> k \<and> k \<le> length recs \<longrightarrow> cb (take k recs))"
      have "length recs = n"
      proof (rule ccontr)
        assume "length recs \<noteq> n"
        with fin have f: "0 < length recs" "\<not> cb recs" by simp_all
        from h have "1 \<le> length recs \<and> length recs \<le> length recs \<longrightarrow> cb (take (length recs) recs)"
          by blast
        with f show False by (cases recs) simp_all
      qed
      with r show "r = int n \<and> length recs = n" by simp
    qed
    have c6: "ready h s \<and> r < 0 \<longrightarrow>
          (\<exists>i. length (calls s) \<le> i \<and> i < length (calls s') \<and> failed_call tgt (calls s') i)"
      using r by simp
    have c7: "take (length (calls s)) (calls s') = calls s" using op_outcome_prefix[OF oc] .
    have c8: "\<forall>i. length (calls s) \<le> i \<and> i < length (calls s') \<and> failed_call tgt (calls s') i \<longrightarrow>
          Suc i = length (calls s')
          \<and> r = - int (error_code (call_error tgt (calls s') i)) \<and> r < 0"
    proof (intro allI impI)
      fix i
      assume i: "length (calls s) \<le> i \<and> i < length (calls s') \<and> failed_call tgt (calls s') i"
      with op_outcome_failed[OF oc, of i] have "call_error tgt (calls s') i = SWD_OK" by simp
      with i have False by (simp add: failed_call_def)
      then show "Suc i = length (calls s')
          \<and> r = - int (error_code (call_error tgt (calls s') i)) \<and> r < 0" ..
    qed
    from c1[THEN conjunct1] c1[THEN conjunct2] c2 p2 c4 c5 c6 c7 c8 show ?thesis by (intro conjI)
  next
    assume "\<exists>e. e \<noteq> SWD_OK \<and> r = - int (error_code e) \<and> op_outcome tgt h s s' e
            \<and> (0 < length recs \<longrightarrow> cb recs)"
    then obtain e where e: "e \<noteq> SWD_OK" and r: "r = - int (error_code e)"
      and oc: "op_outcome tgt h s s' e" and lt: "0 < length recs \<longrightarrow> cb recs" by blast
    have neg: "r < 0" using neg_error_code[OF e] r by simp
    have c1: "length recs \<le> n \<and> r \<le> int n" using len neg by simp
    have c2: "r = int (length recs) \<or> (\<exists>e. e \<noteq> SWD_OK \<and> r = - int (error_code e))"
      using e r by blast
    have c4: "\<forall>k. 1 \<le> k \<and> k \<le> length recs \<and> \<not> cb (take k recs) \<longrightarrow> r = int k \<and> length recs = k"
    proof (intro allI impI)
      fix k
      assume k: "1 \<le> k \<and> k \<le> length recs \<and> \<not> cb (take k recs)"
      with p2 have "k = length recs" by (cases "k < length recs") auto
      with k lt have False by simp
      then show "r = int k \<and> length recs = k" ..
    qed
    have c6: "ready h s \<and> r < 0 \<longrightarrow>
          (\<exists>i. length (calls s) \<le> i \<and> i < length (calls s') \<and> failed_call tgt (calls s') i)"
      using op_outcome_ready_error[OF oc _ e] by blast
    have c5: "ready h s
          \<and> (\<forall>i. length (calls s) \<le> i \<and> i < length (calls s') \<longrightarrow> \<not> failed_call tgt (calls s') i)
          \<and> (\<forall>k. 1 \<le> k \<and> k \<le> length recs \<longrightarrow> cb (take k recs))
         \<longrightarrow> r = int n \<and> length recs = n"
      using c6 neg by blast
    have c7: "take (length (calls s)) (calls s') = calls s" using op_outcome_prefix[OF oc] .
    have c8: "\<forall>i. length (calls s) \<le> i \<and> i < length (calls s') \<and> failed_call tgt (calls s') i \<longrightarrow>
          Suc i = length (calls s')
          \<and> r = - int (error_code (call_error tgt (calls s') i)) \<and> r < 0"
    proof (intro allI impI)
      fix i
      assume i: "length (calls s) \<le> i \<and> i < length (calls s') \<and> failed_call tgt (calls s') i"
      with op_outcome_failed[OF oc, of i] r neg
      show "Suc i = length (calls s')
          \<and> r = - int (error_code (call_error tgt (calls s') i)) \<and> r < 0" by simp
    qed
    from c1[THEN conjunct1] c1[THEN conjunct2] c2 p2 c4 c5 c6 c7 c8 show ?thesis by (intro conjI)
  qed
qed

text \<open>
  On the session with hart 0 halted. The loop detector on the looping target, bound 50:
  its tenth invocation, the third return to the loop entry, is the one that returns
  false, and the result is 10. A callback that always returns true, bound 5, registers
  captured: no call fails, and the result is 5. The loop detector on the target with the
  bus fault: the call with index 10 of the log, the third instruction fetch, fails with
  a bus error, and the result is the negated code of that error.
\<close>

theorem trace_count_contract_witness:
  "fst (rp2350_trace looping_target Hart0 50 trace_callback_loop_detect False halted_dbg) = 10
   \<and> fst (rp2350_trace looping_target Hart0 5 (\<lambda>hist. True) True halted_dbg) = 5
   \<and> fst (rp2350_trace bus_fault_target Hart0 50 trace_callback_loop_detect False halted_dbg) = - 16"
proof -
  let ?l = "rp2350_trace looping_target Hart0 50 trace_callback_loop_detect False halted_dbg"
  let ?t = "rp2350_trace looping_target Hart0 5 (\<lambda>hist. True) True halted_dbg"
  let ?b = "rp2350_trace bus_fault_target Hart0 50 trace_callback_loop_detect False halted_dbg"
  have stop: "1 \<le> (10::nat) \<and> 10 \<le> length (fst (snd ?l))
      \<and> \<not> trace_callback_loop_detect (take 10 (fst (snd ?l)))"
    by code_simp
  from trace_count_contract[where tgt = looping_target and h = Hart0 and n = 50
      and cb = trace_callback_loop_detect and capture = False and s = halted_dbg
      and r = "fst ?l" and recs = "fst (snd ?l)" and s' = "snd (snd ?l)"] stop
  have l: "fst ?l = 10" by auto
  have nofail: "\<not> failed_call looping_target cs i" for cs i
    by (simp add: failed_call_def call_error_def looping_target_def split: dm_call.splits)
  from trace_count_contract[where tgt = looping_target and h = Hart0 and n = 5
      and cb = "\<lambda>hist. True" and capture = True and s = halted_dbg
      and r = "fst ?t" and recs = "fst (snd ?t)" and s' = "snd (snd ?t)"] nofail halted_dbg_ready
  have t: "fst ?t = 5" by simp
  have fault: "length (calls halted_dbg) \<le> 10 \<and> 10 < length (calls (snd (snd ?b)))
      \<and> failed_call bus_fault_target (calls (snd (snd ?b))) 10
      \<and> call_error bus_fault_target (calls (snd (snd ?b))) 10 = SWD_ERROR_BUS"
    by code_simp
  from trace_count_contract[where tgt = bus_fault_target and h = Hart0 and n = 50
      and cb = trace_callback_loop_detect and capture = False and s = halted_dbg
      and r = "fst ?b" and recs = "fst (snd ?b)" and s' = "snd (snd ?b)"] fault
  have b: "fst ?b = - 16" by auto
  from l t b show ?thesis by simp
qed

end
